theory Spec2Isabelle
  imports Complex_Main
begin

section \<open>The boids stepper of \<open>src/main.ts\<close>\<close>

text \<open>
  JavaScript numbers are modelled as the reals: every statement below is about the
  arithmetic the program writes down, not about IEEE rounding. The two situations in
  which the program leaves ordinary arithmetic are values of the type \<open>error\<close>:
  reading a property of \<open>undefined\<close> (a velocity that is missing from the
  identifier-keyed record) throws, and a division by zero yields a non-finite vector.
\<close>

datatype error = TypeError | NonFinite

definition bind_err :: "error + 'a \<Rightarrow> ('a \<Rightarrow> error + 'b) \<Rightarrow> error + 'b" where
  "bind_err m f = (case m of Inl e \<Rightarrow> Inl e | Inr a \<Rightarrow> f a)"

subsection \<open>The vector class of the graphics library\<close>

text \<open>
  \<open>Vector3\<close> is the three-component vector of three.js; the methods the program calls
  are written out here as the library defines them. A vector built by \<open>new Vector3()\<close>
  is \<open>zero\<close>.
\<close>

datatype Vector3 = Vector3 (vec_x: real) (vec_y: real) (vec_z: real)

definition zero :: Vector3 where
  "zero = Vector3 0 0 0"

definition add :: "Vector3 \<Rightarrow> Vector3 \<Rightarrow> Vector3" where
  "add a b = Vector3 (vec_x a + vec_x b) (vec_y a + vec_y b) (vec_z a + vec_z b)"

definition addVectors :: "Vector3 \<Rightarrow> Vector3 \<Rightarrow> Vector3" where
  "addVectors a b = Vector3 (vec_x a + vec_x b) (vec_y a + vec_y b) (vec_z a + vec_z b)"

definition subVectors :: "Vector3 \<Rightarrow> Vector3 \<Rightarrow> Vector3" where
  "subVectors a b = Vector3 (vec_x a - vec_x b) (vec_y a - vec_y b) (vec_z a - vec_z b)"

definition multiplyScalar :: "Vector3 \<Rightarrow> real \<Rightarrow> Vector3" where
  "multiplyScalar v s = Vector3 (vec_x v * s) (vec_y v * s) (vec_z v * s)"

text \<open>
  \<open>divideScalar(s)\<close> is \<open>multiplyScalar(1 / s)\<close>; with \<open>s = 0\<close> the quotient is
  infinite and the product has non-finite components.
\<close>

definition divideScalar :: "Vector3 \<Rightarrow> real \<Rightarrow> error + Vector3" where
  "divideScalar v s = (if s = 0 then Inl NonFinite else Inr (multiplyScalar v (1 / s)))"

definition dot :: "Vector3 \<Rightarrow> Vector3 \<Rightarrow> real" where
  "dot a b = vec_x a * vec_x b + vec_y a * vec_y b + vec_z a * vec_z b"

text \<open>\<open>crossVectors(a, b)\<close>: the cross product.\<close>

definition crossVectors :: "Vector3 \<Rightarrow> Vector3 \<Rightarrow> Vector3" where
  "crossVectors a b =
     Vector3 (vec_y a * vec_z b - vec_z a * vec_y b)
             (vec_z a * vec_x b - vec_x a * vec_z b)
             (vec_x a * vec_y b - vec_y a * vec_x b)"

definition lengthSq :: "Vector3 \<Rightarrow> real" where
  "lengthSq v = vec_x v * vec_x v + vec_y v * vec_y v + vec_z v * vec_z v"

definition length_v :: "Vector3 \<Rightarrow> real" where
  "length_v v = sqrt (vec_x v * vec_x v + vec_y v * vec_y v + vec_z v * vec_z v)"

definition distanceToSquared :: "Vector3 \<Rightarrow> Vector3 \<Rightarrow> real" where
  "distanceToSquared a b =
     (let dx = vec_x a - vec_x b; dy = vec_y a - vec_y b; dz = vec_z a - vec_z b
      in dx * dx + dy * dy + dz * dz)"

definition distanceTo :: "Vector3 \<Rightarrow> Vector3 \<Rightarrow> real" where
  "distanceTo a b = sqrt (distanceToSquared a b)"

definition clamp :: "real \<Rightarrow> real \<Rightarrow> real \<Rightarrow> real" where
  "clamp v lo hi = max lo (min hi v)"

definition angleTo :: "Vector3 \<Rightarrow> Vector3 \<Rightarrow> real" where
  "angleTo a b =
     (let denominator = sqrt (lengthSq a * lengthSq b)
      in if denominator = 0 then pi / 2
         else arccos (clamp (dot a b / denominator) (- 1) 1))"

text \<open>\<open>l || 1\<close>: a length of zero is replaced by one before dividing.\<close>

definition or_one :: "real \<Rightarrow> real" where
  "or_one l = (if l = 0 then 1 else l)"

definition normalize :: "Vector3 \<Rightarrow> error + Vector3" where
  "normalize v = divideScalar v (or_one (length_v v))"

definition setLength :: "Vector3 \<Rightarrow> real \<Rightarrow> error + Vector3" where
  "setLength v l = bind_err (normalize v) (\<lambda>n. Inr (multiplyScalar n l))"

text \<open>
  \<open>clampLength(min, max)\<close> is
  \<open>this.divideScalar(length || 1).multiplyScalar(Math.max(min, Math.min(max, length)))\<close>.
  Here it is in exact arithmetic, as are all the methods of this section;
  \<open>clampLengthWith\<close> below is the same method with every operation rounded.
\<close>

definition clampLength :: "Vector3 \<Rightarrow> real \<Rightarrow> real \<Rightarrow> error + Vector3" where
  "clampLength v lo hi =
     (let l = length_v v
      in bind_err (divideScalar v (or_one l))
           (\<lambda>n. Inr (multiplyScalar n (max lo (min hi l)))))"

subsection \<open>Rounding\<close>

text \<open>
  The definitions above compute in exact arithmetic. The program computes in IEEE 754
  double precision: every arithmetic operation returns the double nearest to the exact
  result, a tie going to the neighbour with the even significand. \<open>double\<close> is that
  rounding to 53 significant bits, with the exponent range left unbounded: it is the
  rounding of the program as long as a result neither overflows nor falls below the
  smallest normal double, \<open>2 ^ -1022\<close>.
\<close>

definition roundHalfEven :: "real \<Rightarrow> int" where
  "roundHalfEven x =
     (let f = \<lfloor>x\<rfloor>
      in if x - of_int f < 1 / 2 then f
         else if 1 / 2 < x - of_int f then f + 1
         else if even f then f else f + 1)"

definition double :: "real \<Rightarrow> real" where
  "double x =
     (if x = 0 then 0
      else let e = \<lfloor>log 2 \<bar>x\<bar>\<rfloor>;
               ulp = 2 powr (of_int e - 52)
           in of_int (roundHalfEven (x / ulp)) * ulp)"






subsection \<open>The global random generator\<close>

text \<open>
  \<open>Math.random()\<close> reads an implicit global generator. The generator is the sequence of
  numbers it is going to return; a call returns the head and leaves the rest.
\<close>

type_synonym rng = "nat \<Rightarrow> real"

definition Math_random :: "rng \<Rightarrow> real \<times> rng" where
  "Math_random g = (g 0, \<lambda>n. g (Suc n))"

text \<open>
  \<open>randomDirection()\<close> picks a point of the unit sphere from two draws: the first gives
  the angle \<open>theta\<close> around the y axis, the second the height \<open>u\<close> along it.
\<close>

definition randomDirection :: "rng \<Rightarrow> Vector3 \<times> rng" where
  "randomDirection g =
     (let (r1, g1) = Math_random g;
          theta = r1 * pi * 2;
          (r2, g2) = Math_random g1;
          u = r2 * 2 - 1;
          c = sqrt (1 - u * u)
      in (Vector3 (c * cos theta) u (c * sin theta), g2))"

text \<open>
  The point \<open>randomDirection\<close> builds, as a function of its two draws.
\<close>

definition spherePoint :: "real \<Rightarrow> real \<Rightarrow> Vector3" where
  "spherePoint r1 r2 =
     Vector3 (sqrt (1 - (r2 * 2 - 1) * (r2 * 2 - 1)) * cos (r1 * pi * 2))
             (r2 * 2 - 1)
             (sqrt (1 - (r2 * 2 - 1) * (r2 * 2 - 1)) * sin (r1 * pi * 2))"

subsection \<open>Constants\<close>

definition INSECT_COUNT :: nat where "INSECT_COUNT = 100"
definition X_LIM :: real where "X_LIM = 135"
definition Y_LIM :: real where "Y_LIM = 73"
definition Z_LIM :: real where "Z_LIM = 75"
definition VELOCITY_LIM :: real where "VELOCITY_LIM = 15 / 10"
definition SEPARATION_RADIUS :: real where "SEPARATION_RADIUS = 15"
definition ALIGNMENT_RADIUS :: real where "ALIGNMENT_RADIUS = 60"
definition COHESION_RADIUS :: real where "COHESION_RADIUS = 70"
definition LIM_FACTOR :: real where "LIM_FACTOR = 2 / 10"
definition SEPARATION_FACTOR :: real where "SEPARATION_FACTOR = 7 / 100"
definition ALIGNMENT_FACTOR :: real where "ALIGNMENT_FACTOR = 5 / 100"
definition COHESION_FACTOR :: real where "COHESION_FACTOR = 3 / 100"
definition NOISE_ANGLE :: real where "NOISE_ANGLE = pi / 4"
definition NOISE_FACTOR :: real where "NOISE_FACTOR = 5 / 10"
definition STEPS :: nat where "STEPS = 1000"

subsection \<open>Insects\<close>

text \<open>
  An insect is a \<open>Mesh\<close>: the fields the stepper reads and writes are its identifier,
  its position and its orientation. \<open>lookAt(target)\<close> derives the orientation from the
  object's position and the target; it is kept as that pair.
\<close>

datatype Quaternion = Unrotated | LookAt Vector3 Vector3

record Mesh =
  mesh_id :: nat
  position :: Vector3
  quaternion :: Quaternion

definition lookAt :: "Mesh \<Rightarrow> Vector3 \<Rightarrow> Mesh" where
  "lookAt m target = m\<lparr>quaternion := LookAt (position m) target\<rparr>"

subsection \<open>Helper functions\<close>

definition withinDistance :: "Mesh \<Rightarrow> Mesh \<Rightarrow> real \<Rightarrow> bool" where
  "withinDistance insect1 insect2 range_lim =
     (let distance = distanceTo (position insect1) (position insect2)
      in distance \<le> range_lim)"

definition getInsectsWithinDistance :: "Mesh \<Rightarrow> Mesh list \<Rightarrow> real \<Rightarrow> Mesh list" where
  "getInsectsWithinDistance mainInsect insectList range_lim =
     filter (\<lambda>insect. withinDistance mainInsect insect range_lim) insectList"

text \<open>The \<open>forEach\<close> of \<open>calculateAverageVelocity\<close>: the accumulator and the rest of the list.\<close>

fun addVelocities ::
  "Vector3 \<Rightarrow> Mesh list \<Rightarrow> (nat \<rightharpoonup> Vector3) \<Rightarrow> error + Vector3" where
  "addVelocities averageVelocity [] insectVelocities = Inr averageVelocity"
| "addVelocities averageVelocity (insect # rest) insectVelocities =
     (case insectVelocities (mesh_id insect) of
        None \<Rightarrow> Inl TypeError
      | Some v \<Rightarrow> addVelocities (add averageVelocity v) rest insectVelocities)"

definition calculateAverageVelocity ::
  "Mesh list \<Rightarrow> (nat \<rightharpoonup> Vector3) \<Rightarrow> error + Vector3" where
  "calculateAverageVelocity insectList insectVelocities =
     bind_err (addVelocities zero insectList insectVelocities)
       (\<lambda>averageVelocity. divideScalar averageVelocity (real (length insectList)))"

fun addPositions :: "Vector3 \<Rightarrow> Mesh list \<Rightarrow> Vector3" where
  "addPositions averagePosition [] = averagePosition"
| "addPositions averagePosition (insect # rest) =
     addPositions (add averagePosition (position insect)) rest"

definition calculateAveragePosition :: "Mesh list \<Rightarrow> error + Vector3" where
  "calculateAveragePosition insectList =
     divideScalar (addPositions zero insectList) (real (length insectList))"

subsection \<open>Algorithm functions\<close>

definition getCoherenceCorrection :: "Mesh \<Rightarrow> Mesh list \<Rightarrow> error + Vector3" where
  "getCoherenceCorrection insect insectList =
     (let coherenceInsects = getInsectsWithinDistance insect insectList COHESION_RADIUS;
          coherenceVector = zero
      in if length coherenceInsects > 0
         then bind_err (calculateAveragePosition coherenceInsects)
                (\<lambda>averagePosition.
                   Inr (multiplyScalar (subVectors averagePosition (position insect))
                          COHESION_FACTOR))
         else Inr coherenceVector)"

definition getSeparationCorrection :: "Mesh \<Rightarrow> Mesh list \<Rightarrow> error + Vector3" where
  "getSeparationCorrection insect insectList =
     (let separationInsects = getInsectsWithinDistance insect insectList SEPARATION_RADIUS;
          separationVector = zero
      in if length separationInsects > 0
         then bind_err (calculateAveragePosition separationInsects)
                (\<lambda>averagePosition.
                   Inr (multiplyScalar (subVectors (position insect) averagePosition)
                          SEPARATION_FACTOR))
         else Inr separationVector)"

text \<open>
  In \<open>getAlignmentCorrection\<close> the block of the \<open>if\<close> declares a second
  \<open>const alignmentVector\<close>: the scaled average is bound to the inner name, and the
  function returns the outer one.
\<close>

definition getAlignmentCorrection ::
  "Mesh \<Rightarrow> Mesh list \<Rightarrow> (nat \<rightharpoonup> Vector3) \<Rightarrow> error + Vector3" where
  "getAlignmentCorrection insect insectList insectVelocities =
     (let alignmentInsects = getInsectsWithinDistance insect insectList ALIGNMENT_RADIUS;
          alignmentVector = zero
      in if length alignmentInsects > 0
         then bind_err (calculateAverageVelocity alignmentInsects insectVelocities)
                (\<lambda>inner.
                   let alignmentVector' = multiplyScalar inner ALIGNMENT_FACTOR
                   in Inr alignmentVector)
         else Inr alignmentVector)"

definition getBoundsCorrection :: "Mesh \<Rightarrow> Vector3" where
  "getBoundsCorrection insect =
     (let boundsCorrectionLess = Vector3
            (if vec_x (position insect) < - X_LIM then LIM_FACTOR else 0)
            (if vec_y (position insect) < - Y_LIM then LIM_FACTOR else 0)
            (if vec_z (position insect) < - Z_LIM then LIM_FACTOR else 0);
          boundsCorrectionMore = Vector3
            (if vec_x (position insect) > X_LIM then - LIM_FACTOR else 0)
            (if vec_y (position insect) > Y_LIM then - LIM_FACTOR else 0)
            (if vec_z (position insect) > Z_LIM then - LIM_FACTOR else 0)
      in add boundsCorrectionLess boundsCorrectionMore)"

text \<open>
  The first half of \<open>getNoiseAlignmentCorrections\<close>: the flag \<open>withinAlignmentLimit\<close>.
  Looking up the insect's own velocity and calling \<open>angleTo\<close> on it throws when the
  velocity is missing.
\<close>

definition withinAlignmentLimit ::
  "Mesh \<Rightarrow> Mesh list \<Rightarrow> (nat \<rightharpoonup> Vector3) \<Rightarrow> error + bool" where
  "withinAlignmentLimit insect insectList insectVelocities =
     (let alignmentInsects = getInsectsWithinDistance insect insectList ALIGNMENT_RADIUS
      in if length alignmentInsects > 0
         then bind_err (calculateAverageVelocity alignmentInsects insectVelocities)
                (\<lambda>averageVelocity.
                   case insectVelocities (mesh_id insect) of
                     None \<Rightarrow> Inl TypeError
                   | Some insectVelocity \<Rightarrow>
                       (let misalignment = angleTo insectVelocity averageVelocity
                        in Inr (misalignment < NOISE_ANGLE)))
         else Inr False)"

definition getNoiseAlignmentCorrections ::
  "Mesh \<Rightarrow> Mesh list \<Rightarrow> (nat \<rightharpoonup> Vector3) \<Rightarrow> rng \<Rightarrow> error + Vector3 \<times> rng" where
  "getNoiseAlignmentCorrections insect insectList insectVelocities g =
     bind_err (withinAlignmentLimit insect insectList insectVelocities)
       (\<lambda>aligned.
          if \<not> aligned
          then (let (direction, g2) = randomDirection g;
                    (r, g3) = Math_random g2
                in bind_err (setLength direction (r * VELOCITY_LIM))
                     (\<lambda>alignmentVector. Inr (multiplyScalar alignmentVector NOISE_FACTOR, g3)))
          else Inr (multiplyScalar zero NOISE_FACTOR, g))"

definition getNewVelocity ::
  "Mesh \<Rightarrow> Mesh list \<Rightarrow> (nat \<rightharpoonup> Vector3) \<Rightarrow> rng \<Rightarrow> error + Vector3 \<times> rng" where
  "getNewVelocity insect insectList insectVelocities g =
     (case insectVelocities (mesh_id insect) of
        None \<Rightarrow> Inl TypeError
      | Some v0 \<Rightarrow>
          bind_err (getSeparationCorrection insect insectList) (\<lambda>separation.
          bind_err (getAlignmentCorrection insect insectList insectVelocities) (\<lambda>alignment.
          bind_err (getCoherenceCorrection insect insectList) (\<lambda>coherence.
          bind_err (getNoiseAlignmentCorrections insect insectList insectVelocities g)
            (\<lambda>(noise, g').
          bind_err (clampLength
                      (add (add (add (add (add v0 separation) alignment) coherence)
                              (getBoundsCorrection insect)) noise)
                      0 VELOCITY_LIM)
            (\<lambda>newVelocity. Inr (newVelocity, g')))))))"

subsection \<open>The step over all insects\<close>

text \<open>
  The insects are objects shared between \<open>insectList\<close>, the filtered copies
  \<open>insectsMinusOne\<close> and the scene, and \<open>updatePositions\<close> writes into them while it
  iterates. The store \<open>heap\<close> maps an object reference to the object; a list of insects
  is a list of references. The state also holds the record of velocities (keyed by
  identifier), the global random generator, the array \<open>insects\<close> and \<open>stepCounter\<close>.
\<close>

record State =
  heap :: "nat \<Rightarrow> Mesh"
  velocities :: "nat \<rightharpoonup> Vector3"
  generator :: rng
  insects :: "nat list"
  stepCounter :: nat
  object3DId :: nat

text \<open>
  \<open>insectList.filter(i => i.id !== insect.id)\<close>, read in the current store: the objects
  the correction functions are going to see.
\<close>

definition insectsMinusOne :: "State \<Rightarrow> nat list \<Rightarrow> nat \<Rightarrow> Mesh list" where
  "insectsMinusOne s insectList ref =
     map (heap s) (filter (\<lambda>i. mesh_id (heap s i) \<noteq> mesh_id (heap s ref)) insectList)"

text \<open>The callback of the \<open>forEach\<close> in \<open>updatePositions\<close>, for the insect at \<open>ref\<close>.\<close>

definition updateInsect :: "nat list \<Rightarrow> nat \<Rightarrow> State \<Rightarrow> error + State" where
  "updateInsect insectList ref s =
     (let insect = heap s ref
      in bind_err (getNewVelocity insect (insectsMinusOne s insectList ref) (velocities s)
                     (generator s))
           (\<lambda>(newVelocity, g').
              let oldPosition = position insect;
                  newPosition = addVectors oldPosition newVelocity
              in Inr (s\<lparr>heap := (heap s)(ref := (lookAt insect newPosition)
                                                   \<lparr>position := newPosition\<rparr>),
                        velocities := (velocities s)(mesh_id insect \<mapsto> newVelocity),
                        generator := g'\<rparr>)))"

fun forEachInsect :: "nat list \<Rightarrow> nat list \<Rightarrow> State \<Rightarrow> error + State" where
  "forEachInsect insectList [] s = Inr s"
| "forEachInsect insectList (ref # rest) s =
     bind_err (updateInsect insectList ref s) (forEachInsect insectList rest)"

definition updatePositions :: "nat list \<Rightarrow> State \<Rightarrow> error + State" where
  "updatePositions insectList s = forEachInsect insectList insectList s"

subsection \<open>Main script\<close>

text \<open>
  \<open>new Mesh\<close> runs the constructor of the library's scene objects: it takes the next
  identifier of the global object counter and gives the object a uuid, for which
  \<open>generateUUID\<close> draws four numbers from \<open>Math.random\<close>. The uuid is not among the fields
  the stepper reads, so \<open>Mesh\<close> has no field for it; the four draws are used up all the
  same. The new object sits at the origin, unrotated, and its reference is modelled by
  its identifier.
\<close>

definition generateUUID :: "rng \<Rightarrow> (real \<times> real \<times> real \<times> real) \<times> rng" where
  "generateUUID g =
     (let (d0, g0) = Math_random g;
          (d1, g1) = Math_random g0;
          (d2, g2) = Math_random g1;
          (d3, g3) = Math_random g2
      in ((d0, d1, d2, d3), g3))"

definition newMesh :: "State \<Rightarrow> Mesh \<times> State" where
  "newMesh s =
     (let ref = object3DId s;
          (uuid, g) = generateUUID (generator s);
          mesh = \<lparr>mesh_id = ref, position = zero, quaternion = Unrotated\<rparr>
      in (mesh, s\<lparr>heap := (heap s)(ref := mesh), generator := g, object3DId := Suc ref\<rparr>))"

text \<open>
  One pass of the initialisation loop: the new insect, then three draws for its position
  and three for its velocity.
\<close>

definition createInsect :: "State \<Rightarrow> State" where
  "createInsect s =
     (let (insect, s0) = newMesh s;
          ref = mesh_id insect;
          (r1, g1) = Math_random (generator s0);
          randomX = r1 * X_LIM * 2 - X_LIM;
          (r2, g2) = Math_random g1;
          randomY = r2 * Y_LIM * 2 - Y_LIM;
          (r3, g3) = Math_random g2;
          randomZ = r3 * Z_LIM * 2 - Z_LIM;
          (r4, g4) = Math_random g3;
          randomVX = r4 * VELOCITY_LIM * 2 - VELOCITY_LIM;
          (r5, g5) = Math_random g4;
          randomVY = r5 * VELOCITY_LIM * 2 - VELOCITY_LIM;
          (r6, g6) = Math_random g5;
          randomVZ = r6 * VELOCITY_LIM * 2 - VELOCITY_LIM;
          insectVelocity = Vector3 randomVX randomVY randomVZ
      in s0\<lparr>heap := (heap s0)(ref := insect\<lparr>position := Vector3 randomX randomY randomZ\<rparr>),
             velocities := (velocities s0)(ref \<mapsto> insectVelocity),
             generator := g6,
             insects := insects s0 @ [ref]\<rparr>)"

fun createInsects :: "nat \<Rightarrow> State \<Rightarrow> State" where
  "createInsects 0 s = s"
| "createInsects (Suc n) s = createInsects n (createInsect s)"

text \<open>
  The state when the loop starts: no insects, no velocities, the counter at zero. The
  objects created before (scene, camera) have used the identifiers below \<open>firstId\<close> and
  have drawn their uuids already: \<open>g\<close> is what \<open>Math.random\<close> has still to return.
\<close>

definition emptyState :: "nat \<Rightarrow> rng \<Rightarrow> State" where
  "emptyState firstId g =
     \<lparr>heap = (\<lambda>r. \<lparr>mesh_id = r, position = zero, quaternion = Unrotated\<rparr>),
      velocities = Map.empty, generator = g, insects = [], stepCounter = 0,
      object3DId = firstId\<rparr>"

definition initialState :: "nat \<Rightarrow> rng \<Rightarrow> State" where
  "initialState firstId g = createInsects INSECT_COUNT (emptyState firstId g)"

text \<open>One animation frame (rendering reads the insects and changes nothing).\<close>

definition animate :: "State \<Rightarrow> error + State" where
  "animate s =
     (if stepCounter s < STEPS
      then bind_err (updatePositions (insects s) s)
             (\<lambda>s'. Inr (s'\<lparr>stepCounter := stepCounter s' + 1\<rparr>))
      else Inr s)"

fun frames :: "nat \<Rightarrow> State \<Rightarrow> error + State" where
  "frames 0 s = Inr s"
| "frames (Suc n) s = bind_err (animate s) (frames n)"

subsection \<open>Invariants of the state\<close>

text \<open>
  \<open>wellFormed\<close>: every insect of the array \<open>insects\<close> has an entry in the record of
  velocities, as the initialisation loop leaves it. \<open>idsAreRefs\<close> is the stronger form
  that holds of the states the main script builds: an object's identifier is its
  reference. \<open>velocityBounded\<close> and \<open>allBounded\<close>: the stored velocity of one insect, and
  of every insect, is at most \<open>VELOCITY_LIM\<close> long.
\<close>

definition wellFormed :: "State \<Rightarrow> bool" where
  "wellFormed s = (\<forall>ref\<in>set (insects s). mesh_id (heap s ref) \<in> dom (velocities s))"

definition idsAreRefs :: "State \<Rightarrow> bool" where
  "idsAreRefs s = ((\<forall>r. mesh_id (heap s r) = r) \<and> set (insects s) \<subseteq> dom (velocities s))"

definition velocityBounded :: "State \<Rightarrow> nat \<Rightarrow> bool" where
  "velocityBounded s ref =
     (\<exists>vel. velocities s (mesh_id (heap s ref)) = Some vel \<and> length_v vel \<le> VELOCITY_LIM)"

definition allBounded :: "State \<Rightarrow> bool" where
  "allBounded s = (\<forall>ref\<in>set (insects s). velocityBounded s ref)"

subsection \<open>Runs that draw the same random numbers\<close>

text \<open>
  Two generators \<open>agree\<close> up to \<open>k\<close> when their next \<open>k\<close> numbers are the same; two
  states are \<open>related\<close> when they differ in the generator at most, and the generators
  agree up to \<open>k\<close>. \<open>relatedResults\<close> and \<open>relatedDraws\<close> lift this to the results of
  the functions that can throw.
\<close>

definition agree :: "nat \<Rightarrow> rng \<Rightarrow> rng \<Rightarrow> bool" where
  "agree k g1 g2 = (\<forall>i<k. g1 i = g2 i)"

definition related :: "nat \<Rightarrow> State \<Rightarrow> State \<Rightarrow> bool" where
  "related k s t =
     (heap s = heap t \<and> velocities s = velocities t \<and> insects s = insects t
      \<and> stepCounter s = stepCounter t \<and> object3DId s = object3DId t
      \<and> agree k (generator s) (generator t))"

definition relatedResults :: "nat \<Rightarrow> error + State \<Rightarrow> error + State \<Rightarrow> bool" where
  "relatedResults k r1 r2 =
     (case r1 of
        Inl e \<Rightarrow> r2 = Inl e
      | Inr s \<Rightarrow> (case r2 of Inl e \<Rightarrow> False | Inr t \<Rightarrow> related k s t))"

definition relatedDraws :: "nat \<Rightarrow> error + Vector3 \<times> rng \<Rightarrow> error + Vector3 \<times> rng \<Rightarrow> bool" where
  "relatedDraws k r1 r2 =
     (case r1 of
        Inl e \<Rightarrow> r2 = Inl e
      | Inr (v, g1) \<Rightarrow> (case r2 of Inl e \<Rightarrow> False | Inr (w, g2) \<Rightarrow> v = w \<and> agree k g1 g2))"

subsection \<open>Example states\<close>

text \<open>
  \<open>lineState\<close>: three insects on the x axis, ten units apart, in a state whose step budget
  is used up.
\<close>

definition lineState :: State where
  "lineState =
     \<lparr>heap = (\<lambda>r. \<lparr>mesh_id = r, position = Vector3 (10 * real r) 0 0, quaternion = Unrotated\<rparr>),
      velocities = Map.empty, generator = (\<lambda>n. 0), insects = [0, 1, 2], stepCounter = STEPS,
      object3DId = 3\<rparr>"

text \<open>
  \<open>pairState\<close>: two insects at the origin, both with velocity \<open>(1, 0, 0)\<close>.
  \<open>pairStateAfterFirst\<close> and \<open>pairStateAfterSecond\<close> are the stores after the first and
  after the second insect of \<open>pairState\<close> has been updated.
\<close>

definition pairState :: State where
  "pairState =
     \<lparr>heap = (\<lambda>r. \<lparr>mesh_id = r, position = Vector3 0 0 0, quaternion = Unrotated\<rparr>),
      velocities = [0 \<mapsto> Vector3 1 0 0, 1 \<mapsto> Vector3 1 0 0], generator = (\<lambda>n. 0),
      insects = [0, 1], stepCounter = 0, object3DId = 2\<rparr>"

definition pairStateAfterFirst :: State where
  "pairStateAfterFirst =
     \<lparr>heap = (\<lambda>r. \<lparr>mesh_id = r, position = Vector3 0 0 0, quaternion = Unrotated\<rparr>)
               (0 := \<lparr>mesh_id = 0, position = Vector3 1 0 0,
                       quaternion = LookAt (Vector3 0 0 0) (Vector3 1 0 0)\<rparr>),
      velocities = [0 \<mapsto> Vector3 1 0 0, 1 \<mapsto> Vector3 1 0 0], generator = (\<lambda>n. 0),
      insects = [0, 1], stepCounter = 0, object3DId = 2\<rparr>"

definition pairStateAfterSecond :: State where
  "pairStateAfterSecond =
     \<lparr>heap = (\<lambda>r. \<lparr>mesh_id = r, position = Vector3 0 0 0, quaternion = Unrotated\<rparr>)
               (0 := \<lparr>mesh_id = 0, position = Vector3 1 0 0,
                       quaternion = LookAt (Vector3 0 0 0) (Vector3 1 0 0)\<rparr>,
                1 := \<lparr>mesh_id = 1, position = Vector3 (24 / 25) 0 0,
                       quaternion = LookAt (Vector3 0 0 0) (Vector3 (24 / 25) 0 0)\<rparr>),
      velocities = [0 \<mapsto> Vector3 1 0 0, 1 \<mapsto> Vector3 (24 / 25) 0 0], generator = (\<lambda>n. 0),
      insects = [0, 1], stepCounter = 0, object3DId = 2\<rparr>"

text \<open>
  \<open>opposedVelocities\<close>: velocities for the two insects of \<open>pairState\<close> that point in
  opposite directions.
\<close>

definition opposedVelocities :: "nat \<rightharpoonup> Vector3" where
  "opposedVelocities = [0 \<mapsto> Vector3 1 0 0, 1 \<mapsto> Vector3 (- 1) 0 0]"

section \<open>Properties\<close>

subsection \<open>Errors and the guarded divisions\<close>

lemma divideScalar_nonzero: "s \<noteq> 0 \<Longrightarrow> divideScalar v s = Inr (multiplyScalar v (1 / s))"
  by (simp add: divideScalar_def)

lemma or_one_nonzero: "or_one l \<noteq> 0"
  by (simp add: or_one_def)

lemma bind_err_Inr [simp]: "bind_err (Inr a) f = f a"
  by (simp add: bind_err_def)

lemma bind_err_Inl [simp]: "bind_err (Inl e) f = Inl e"
  by (simp add: bind_err_def)

lemma bind_err_eq_Inr: "bind_err m f = Inr b \<longleftrightarrow> (\<exists>a. m = Inr a \<and> f a = Inr b)"
  by (cases m) simp_all

lemma bind_err_eq_Inl: "bind_err m f = Inl e \<longleftrightarrow> m = Inl e \<or> (\<exists>a. m = Inr a \<and> f a = Inl e)"
  by (cases m) simp_all

lemma addVelocities_not_NonFinite: "addVelocities acc xs vels \<noteq> Inl NonFinite"
  by (induction xs arbitrary: acc) (auto split: option.splits)

lemma calculateAveragePosition_nonempty:
  "xs \<noteq> [] \<Longrightarrow> calculateAveragePosition xs =
     Inr (multiplyScalar (addPositions zero xs) (1 / real (length xs)))"
  by (simp add: calculateAveragePosition_def divideScalar_def)

lemma calculateAverageVelocity_not_NonFinite:
  "xs \<noteq> [] \<Longrightarrow> calculateAverageVelocity xs vels \<noteq> Inl NonFinite"
  by (auto simp: calculateAverageVelocity_def bind_err_eq_Inl addVelocities_not_NonFinite divideScalar_def)

lemma getCoherenceCorrection_finite: "getCoherenceCorrection insect insectList \<noteq> Inl NonFinite"
  by (simp add: getCoherenceCorrection_def Let_def calculateAveragePosition_nonempty)

lemma getSeparationCorrection_finite: "getSeparationCorrection insect insectList \<noteq> Inl NonFinite"
  by (simp add: getSeparationCorrection_def Let_def calculateAveragePosition_nonempty)

lemma getAlignmentCorrection_finite: "getAlignmentCorrection insect insectList vels \<noteq> Inl NonFinite"
  by (auto simp: getAlignmentCorrection_def Let_def bind_err_eq_Inl calculateAverageVelocity_not_NonFinite)

lemma withinAlignmentLimit_finite: "withinAlignmentLimit insect insectList vels \<noteq> Inl NonFinite"
  by (auto simp: withinAlignmentLimit_def Let_def bind_err_eq_Inl calculateAverageVelocity_not_NonFinite
      split: option.splits)

lemma normalize_Inr: "normalize v = Inr (multiplyScalar v (1 / or_one (length_v v)))"
  by (simp add: normalize_def divideScalar_nonzero or_one_nonzero)

lemma setLength_Inr: "setLength v l = Inr (multiplyScalar (multiplyScalar v (1 / or_one (length_v v))) l)"
  by (simp add: setLength_def normalize_Inr)

lemma clampLength_Inr:
  "clampLength v lo hi =
     Inr (multiplyScalar (multiplyScalar v (1 / or_one (length_v v))) (max lo (min hi (length_v v))))"
  by (simp add: clampLength_def Let_def divideScalar_nonzero or_one_nonzero)

lemma getNoiseAlignmentCorrections_finite:
  "getNoiseAlignmentCorrections insect insectList vels g \<noteq> Inl NonFinite"
  by (auto simp: getNoiseAlignmentCorrections_def bind_err_eq_Inl withinAlignmentLimit_finite
      setLength_Inr Let_def split: prod.splits)

lemma getNewVelocity_finite: "getNewVelocity insect insectList vels g \<noteq> Inl NonFinite"
  by (auto simp: getNewVelocity_def bind_err_eq_Inl getSeparationCorrection_finite
      getAlignmentCorrection_finite getCoherenceCorrection_finite
      getNoiseAlignmentCorrections_finite clampLength_Inr split: option.splits prod.splits)

text \<open>
  C10. The division by the length of the neighbour list, inside
  \<open>calculateAveragePosition\<close> and \<open>calculateAverageVelocity\<close>, produces a non-finite
  vector on the empty list; the four correction functions that average (cohesion,
  separation, alignment, noise alignment) and \<open>getNewVelocity\<close>, which calls all five
  corrections, never produce it, whatever the insect, the list, the velocities and the
  random draws are.
\<close>

theorem average_division_guarded:
  "calculateAveragePosition [] = Inl NonFinite
   \<and> calculateAverageVelocity [] vels = Inl NonFinite
   \<and> getCoherenceCorrection insect insectList \<noteq> Inl NonFinite
   \<and> getSeparationCorrection insect insectList \<noteq> Inl NonFinite
   \<and> getAlignmentCorrection insect insectList vels \<noteq> Inl NonFinite
   \<and> getNoiseAlignmentCorrections insect insectList vels g \<noteq> Inl NonFinite
   \<and> getNewVelocity insect insectList vels g \<noteq> Inl NonFinite"
  by (simp add: getCoherenceCorrection_finite getSeparationCorrection_finite
      getAlignmentCorrection_finite getNoiseAlignmentCorrections_finite getNewVelocity_finite
      calculateAveragePosition_def calculateAverageVelocity_def divideScalar_def)

subsection \<open>Bounds correction\<close>

text \<open>
  C4. On every axis independently, the component of the bounds correction is
  \<open>LIM_FACTOR\<close> when the position component is strictly below the negative limit,
  \<open>- LIM_FACTOR\<close> when it is strictly above the positive limit, and \<open>0\<close> otherwise. In
  particular at \<open>x = X_LIM + 1\<close> the x component is \<open>- LIM_FACTOR\<close>, at
  \<open>x = - X_LIM - 1\<close> it is \<open>LIM_FACTOR\<close>, and with \<open>|x| < X_LIM\<close> it is \<open>0\<close>.
\<close>

theorem bounds_correction_per_axis:
  "vec_x (getBoundsCorrection insect) =
     (if vec_x (position insect) < - X_LIM then LIM_FACTOR
      else if vec_x (position insect) > X_LIM then - LIM_FACTOR else 0)
   \<and> vec_y (getBoundsCorrection insect) =
     (if vec_y (position insect) < - Y_LIM then LIM_FACTOR
      else if vec_y (position insect) > Y_LIM then - LIM_FACTOR else 0)
   \<and> vec_z (getBoundsCorrection insect) =
     (if vec_z (position insect) < - Z_LIM then LIM_FACTOR
      else if vec_z (position insect) > Z_LIM then - LIM_FACTOR else 0)
   \<and> (vec_x (position insect) = X_LIM + 1 \<longrightarrow> vec_x (getBoundsCorrection insect) = - LIM_FACTOR)
   \<and> (vec_x (position insect) = - X_LIM - 1 \<longrightarrow> vec_x (getBoundsCorrection insect) = LIM_FACTOR)
   \<and> (\<bar>vec_x (position insect)\<bar> < X_LIM \<longrightarrow> vec_x (getBoundsCorrection insect) = 0)"
  by (simp add: getBoundsCorrection_def add_def X_LIM_def Y_LIM_def Z_LIM_def LIM_FACTOR_def)

theorem bounds_correction_per_axis_witness:
  "vec_x (getBoundsCorrection \<lparr>mesh_id = 0, position = Vector3 136 0 (- 80), quaternion = Unrotated\<rparr>) = - LIM_FACTOR
   \<and> vec_x (getBoundsCorrection \<lparr>mesh_id = 0, position = Vector3 (- 136) 0 0, quaternion = Unrotated\<rparr>) = LIM_FACTOR
   \<and> vec_x (getBoundsCorrection \<lparr>mesh_id = 0, position = Vector3 134 0 0, quaternion = Unrotated\<rparr>) = 0
   \<and> vec_z (getBoundsCorrection \<lparr>mesh_id = 0, position = Vector3 136 0 (- 80), quaternion = Unrotated\<rparr>) = LIM_FACTOR"
  using bounds_correction_per_axis [of "\<lparr>mesh_id = 0, position = Vector3 136 0 (- 80), quaternion = Unrotated\<rparr>"]
    bounds_correction_per_axis [of "\<lparr>mesh_id = 0, position = Vector3 (- 136) 0 0, quaternion = Unrotated\<rparr>"]
    bounds_correction_per_axis [of "\<lparr>mesh_id = 0, position = Vector3 134 0 0, quaternion = Unrotated\<rparr>"]
  by (simp add: X_LIM_def Z_LIM_def)


subsection \<open>Insects without neighbours\<close>

lemma getInsectsWithinDistance_empty:
  "\<forall>b\<in>set insectList. \<not> withinDistance insect b r \<Longrightarrow> getInsectsWithinDistance insect insectList r = []"
  by (simp add: getInsectsWithinDistance_def)

lemma insectsMinusOne_single: "insectsMinusOne s [ref] ref = []"
  by (simp add: insectsMinusOne_def)

lemma sqrt_le_iff_sq: "0 \<le> r \<Longrightarrow> sqrt a \<le> r \<longleftrightarrow> a \<le> r * r"
  by (metis abs_of_nonneg real_sqrt_abs2 real_sqrt_le_iff)

text \<open>
  C7. An insect with no other insect within any of the three radii gets the zero vector
  as separation, alignment and cohesion correction. In particular, when the list holds
  one insect only, the list of the others is empty and the three corrections are zero.
\<close>

theorem isolated_insect_zero_corrections:
  "((\<forall>other\<in>set insectList.
       \<not> withinDistance insect other SEPARATION_RADIUS
       \<and> \<not> withinDistance insect other ALIGNMENT_RADIUS
       \<and> \<not> withinDistance insect other COHESION_RADIUS)
    \<longrightarrow> getSeparationCorrection insect insectList = Inr zero
        \<and> getAlignmentCorrection insect insectList vels = Inr zero
        \<and> getCoherenceCorrection insect insectList = Inr zero)
   \<and> insectsMinusOne s [ref] ref = []
   \<and> getSeparationCorrection (heap s ref) (insectsMinusOne s [ref] ref) = Inr zero
   \<and> getAlignmentCorrection (heap s ref) (insectsMinusOne s [ref] ref) (velocities s) = Inr zero
   \<and> getCoherenceCorrection (heap s ref) (insectsMinusOne s [ref] ref) = Inr zero"
  by (simp add: getSeparationCorrection_def getAlignmentCorrection_def getCoherenceCorrection_def
      getInsectsWithinDistance_empty insectsMinusOne_single)

theorem isolated_insect_zero_corrections_witness:
  "\<not> withinDistance \<lparr>mesh_id = 0, position = Vector3 0 0 0, quaternion = Unrotated\<rparr>
        \<lparr>mesh_id = 1, position = Vector3 100 0 0, quaternion = Unrotated\<rparr> COHESION_RADIUS
   \<and> getSeparationCorrection \<lparr>mesh_id = 0, position = Vector3 0 0 0, quaternion = Unrotated\<rparr>
        [\<lparr>mesh_id = 1, position = Vector3 100 0 0, quaternion = Unrotated\<rparr>] = Inr zero
   \<and> getAlignmentCorrection \<lparr>mesh_id = 0, position = Vector3 0 0 0, quaternion = Unrotated\<rparr>
        [\<lparr>mesh_id = 1, position = Vector3 100 0 0, quaternion = Unrotated\<rparr>] Map.empty = Inr zero
   \<and> getCoherenceCorrection \<lparr>mesh_id = 0, position = Vector3 0 0 0, quaternion = Unrotated\<rparr>
        [\<lparr>mesh_id = 1, position = Vector3 100 0 0, quaternion = Unrotated\<rparr>] = Inr zero"
  using isolated_insect_zero_corrections
    [of "[\<lparr>mesh_id = 1, position = Vector3 100 0 0, quaternion = Unrotated\<rparr>]"
        "\<lparr>mesh_id = 0, position = Vector3 0 0 0, quaternion = Unrotated\<rparr>" Map.empty]
  by (simp add: withinDistance_def distanceTo_def distanceToSquared_def sqrt_le_iff_sq
      SEPARATION_RADIUS_def ALIGNMENT_RADIUS_def COHESION_RADIUS_def)

subsection \<open>Alignment correction\<close>

text \<open>
  C1, at a concrete input. The insect at the origin has one neighbour, one unit away and
  so within \<open>ALIGNMENT_RADIUS\<close>, whose velocity is \<open>(1, 0, 0)\<close>. \<open>ALIGNMENT_FACTOR\<close> times
  the average velocity of the neighbours is \<open>(0.05, 0, 0)\<close>; \<open>getAlignmentCorrection\<close>
  returns the zero vector.
\<close>

theorem alignment_correction_discards_average:
  "getInsectsWithinDistance \<lparr>mesh_id = 0, position = Vector3 0 0 0, quaternion = Unrotated\<rparr>
      [\<lparr>mesh_id = 1, position = Vector3 1 0 0, quaternion = Unrotated\<rparr>] ALIGNMENT_RADIUS
     = [\<lparr>mesh_id = 1, position = Vector3 1 0 0, quaternion = Unrotated\<rparr>]
   \<and> bind_err (calculateAverageVelocity
        [\<lparr>mesh_id = 1, position = Vector3 1 0 0, quaternion = Unrotated\<rparr>]
        [0 \<mapsto> Vector3 1 0 0, 1 \<mapsto> Vector3 1 0 0])
        (\<lambda>average. Inr (multiplyScalar average ALIGNMENT_FACTOR)) = Inr (Vector3 (5 / 100) 0 0)
   \<and> getAlignmentCorrection \<lparr>mesh_id = 0, position = Vector3 0 0 0, quaternion = Unrotated\<rparr>
        [\<lparr>mesh_id = 1, position = Vector3 1 0 0, quaternion = Unrotated\<rparr>]
        [0 \<mapsto> Vector3 1 0 0, 1 \<mapsto> Vector3 1 0 0] = Inr (Vector3 0 0 0)"
  by (simp add: getAlignmentCorrection_def getInsectsWithinDistance_def withinDistance_def
      distanceTo_def distanceToSquared_def ALIGNMENT_RADIUS_def calculateAverageVelocity_def
      divideScalar_def multiplyScalar_def add_def zero_def ALIGNMENT_FACTOR_def)

subsection \<open>The neighbour query\<close>

lemma distanceTo_commute: "distanceTo a b = distanceTo b a"
  by (simp add: distanceTo_def distanceToSquared_def power2_commute [of "vec_x a" "vec_x b"] algebra_simps)

lemma withinDistance_commute: "withinDistance a b r = withinDistance b a r"
  by (simp add: withinDistance_def distanceTo_commute)

lemma neighbours_as_filter:
  "getInsectsWithinDistance (heap s a) (insectsMinusOne s S a) r =
     map (heap s)
       (filter (\<lambda>b. mesh_id (heap s b) \<noteq> mesh_id (heap s a)
                    \<and> distanceTo (position (heap s a)) (position (heap s b)) \<le> r) S)"
  by (induction S) (auto simp: getInsectsWithinDistance_def insectsMinusOne_def withinDistance_def)

lemma heap_inj_on_ids:
  "inj_on (\<lambda>b. mesh_id (heap s b)) A \<Longrightarrow> inj_on (heap s) A"
  by (auto simp: inj_on_def)

text \<open>
  C6. The neighbour query of the step, \<open>getInsectsWithinDistance\<close> on the list without
  the insect itself, returns the insects of the list whose identifier differs from the
  insect's and whose Euclidean distance to its position is at most the radius, in list
  order; without duplicates when the list has none and identifiers are unique. Being
  within a radius is symmetric.
\<close>

theorem neighbour_query:
  "getInsectsWithinDistance (heap s a) (insectsMinusOne s S a) r =
     map (heap s)
       (filter (\<lambda>b. mesh_id (heap s b) \<noteq> mesh_id (heap s a)
                    \<and> distanceTo (position (heap s a)) (position (heap s b)) \<le> r) S)
   \<and> set (getInsectsWithinDistance (heap s a) (insectsMinusOne s S a) r) =
       {heap s b |b. b \<in> set S \<and> mesh_id (heap s b) \<noteq> mesh_id (heap s a)
                    \<and> distanceTo (position (heap s a)) (position (heap s b)) \<le> r}
   \<and> (distinct S \<and> inj_on (\<lambda>b. mesh_id (heap s b)) (set S)
        \<longrightarrow> distinct (getInsectsWithinDistance (heap s a) (insectsMinusOne s S a) r))
   \<and> distanceTo p q =
        sqrt ((vec_x p - vec_x q)\<^sup>2 + (vec_y p - vec_y q)\<^sup>2 + (vec_z p - vec_z q)\<^sup>2)
   \<and> withinDistance A B r = withinDistance B A r"
proof -
  have d: "distinct S \<Longrightarrow> inj_on (\<lambda>b. mesh_id (heap s b)) (set S)
      \<Longrightarrow> distinct (getInsectsWithinDistance (heap s a) (insectsMinusOne s S a) r)"
    unfolding neighbours_as_filter
    by (simp add: distinct_map heap_inj_on_ids inj_on_subset [OF heap_inj_on_ids])
  have e: "distanceTo p q =
        sqrt ((vec_x p - vec_x q)\<^sup>2 + (vec_y p - vec_y q)\<^sup>2 + (vec_z p - vec_z q)\<^sup>2)"
    by (simp add: distanceTo_def distanceToSquared_def Let_def power2_eq_square)
  have st: "set (getInsectsWithinDistance (heap s a) (insectsMinusOne s S a) r) =
       {heap s b |b. b \<in> set S \<and> mesh_id (heap s b) \<noteq> mesh_id (heap s a)
                    \<and> distanceTo (position (heap s a)) (position (heap s b)) \<le> r}"
    unfolding neighbours_as_filter by auto
  show ?thesis
    using d e st neighbours_as_filter [of s a S r] withinDistance_commute [of A B r] by blast
qed

theorem neighbour_query_witness:
  "getInsectsWithinDistance (heap lineState 0) (insectsMinusOne lineState [0, 1, 2] 0) 10 =
     [\<lparr>mesh_id = 1, position = Vector3 10 0 0, quaternion = Unrotated\<rparr>]
   \<and> distinct (getInsectsWithinDistance (heap lineState 0) (insectsMinusOne lineState [0, 1, 2] 0) 10)"
proof -
  have h: "distinct [0::nat, 1, 2] \<and> inj_on (\<lambda>b. mesh_id (heap lineState b)) (set [0, 1, 2])"
    by (simp add: lineState_def)
  show ?thesis
    using h neighbour_query [of lineState 0 "[0, 1, 2]" 10]
    by (simp add: lineState_def distanceTo_def distanceToSquared_def sqrt_le_iff_sq)
qed

subsection \<open>The halted stepper\<close>

lemma animate_halted: "STEPS \<le> stepCounter s \<Longrightarrow> animate s = Inr s"
  by (simp add: animate_def)

lemma frames_halted: "STEPS \<le> stepCounter s \<Longrightarrow> frames n s = Inr s"
  by (induction n) (simp_all add: animate_halted)

text \<open>
  C8. Once the step budget is used up (\<open>STEPS - stepCounter = 0\<close> steps remain), a frame
  returns the state it was given, and so does any number of further frames: no
  position, orientation or velocity changes.
\<close>

theorem halted_step_is_noop:
  "STEPS - stepCounter s = 0 \<Longrightarrow> animate s = Inr s \<and> frames n s = Inr s"
  by (simp add: animate_halted frames_halted)

theorem halted_step_is_noop_witness:
  "STEPS - stepCounter lineState = 0 \<and> animate lineState = Inr lineState
   \<and> frames 3 lineState = Inr lineState"
proof -
  have h: "STEPS - stepCounter lineState = 0"
    by (simp add: lineState_def)
  show ?thesis
    using h halted_step_is_noop [OF h, of 3] by simp
qed

subsection \<open>The velocity limit\<close>

lemma length_v_nonneg: "0 \<le> length_v v"
  by (simp add: length_v_def)

lemma length_v_multiplyScalar: "length_v (multiplyScalar v k) = \<bar>k\<bar> * length_v v"
proof -
  have "vec_x v * k * (vec_x v * k) + vec_y v * k * (vec_y v * k) + vec_z v * k * (vec_z v * k)
      = k\<^sup>2 * (vec_x v * vec_x v + vec_y v * vec_y v + vec_z v * vec_z v)"
    by (simp add: power2_eq_square algebra_simps)
  then show ?thesis
    by (simp add: length_v_def multiplyScalar_def real_sqrt_mult)
qed

lemma length_v_zero_iff: "length_v v = 0 \<longleftrightarrow> v = zero"
proof
  assume "length_v v = 0"
  then have "vec_x v * vec_x v + vec_y v * vec_y v + vec_z v * vec_z v = 0"
    by (simp add: length_v_def)
  then have "vec_x v = 0 \<and> vec_y v = 0 \<and> vec_z v = 0"
    by (smt (verit) zero_le_square mult_eq_0_iff)
  then show "v = zero"
    by (cases v) (simp add: zero_def)
next
  assume "v = zero"
  then show "length_v v = 0" by (simp add: zero_def length_v_def)
qed

lemma multiplyScalar_twice: "multiplyScalar (multiplyScalar v a) b = multiplyScalar v (a * b)"
  by (simp add: multiplyScalar_def algebra_simps)


lemma multiplyScalar_zero_vec: "multiplyScalar zero k = zero"
  by (simp add: multiplyScalar_def zero_def)


lemma clampLength_length:
  assumes "0 \<le> hi"
  shows "\<exists>c. clampLength v 0 hi = Inr c \<and> length_v c = min hi (length_v v)"
proof (cases "length_v v = 0")
  case True
  with assms show ?thesis
    by (simp add: clampLength_Inr length_v_multiplyScalar)
next
  case False
  with length_v_nonneg [of v] have pos: "0 < length_v v" by simp
  with assms have m: "max 0 (min hi (length_v v)) = min hi (length_v v)" by simp
  from pos assms have "\<bar>1 / length_v v * min hi (length_v v)\<bar> * length_v v = min hi (length_v v)"
    by (simp add: abs_mult)
  with False m show ?thesis
    by (simp add: clampLength_Inr multiplyScalar_twice or_one_def length_v_multiplyScalar)
qed


lemma getNewVelocity_bounded:
  assumes "getNewVelocity insect insectList vels g = Inr (v, g')"
  shows "length_v v \<le> VELOCITY_LIM"
proof -
  have lim: "0 \<le> VELOCITY_LIM" by (simp add: VELOCITY_LIM_def)
  from assms obtain w where "clampLength w 0 VELOCITY_LIM = Inr v"
    by (auto simp: getNewVelocity_def bind_err_eq_Inr split: option.splits prod.splits)
  with clampLength_length [OF lim, of w] show ?thesis by auto
qed

lemma addVelocities_total:
  "\<forall>b\<in>set xs. mesh_id b \<in> dom vels \<Longrightarrow> \<exists>v. addVelocities acc xs vels = Inr v"
  by (induction xs arbitrary: acc) auto

lemma calculateAverageVelocity_total:
  "xs \<noteq> [] \<Longrightarrow> \<forall>b\<in>set xs. mesh_id b \<in> dom vels \<Longrightarrow> \<exists>v. calculateAverageVelocity xs vels = Inr v"
  using addVelocities_total [of xs vels zero]
  by (auto simp: calculateAverageVelocity_def divideScalar_def)

lemma getSeparationCorrection_total: "\<exists>v. getSeparationCorrection insect insectList = Inr v"
  by (simp add: getSeparationCorrection_def Let_def calculateAveragePosition_nonempty)

lemma getCoherenceCorrection_total: "\<exists>v. getCoherenceCorrection insect insectList = Inr v"
  by (simp add: getCoherenceCorrection_def Let_def calculateAveragePosition_nonempty)

lemma neighbours_in_dom:
  "\<forall>b\<in>set insectList. mesh_id b \<in> dom vels
   \<Longrightarrow> \<forall>b\<in>set (getInsectsWithinDistance insect insectList r). mesh_id b \<in> dom vels"
  by (simp add: getInsectsWithinDistance_def)

lemma getAlignmentCorrection_total:
  assumes "\<forall>b\<in>set insectList. mesh_id b \<in> dom vels"
  shows "getAlignmentCorrection insect insectList vels = Inr zero"
proof (cases "getInsectsWithinDistance insect insectList ALIGNMENT_RADIUS = []")
  case True
  then show ?thesis by (simp add: getAlignmentCorrection_def)
next
  case False
  from calculateAverageVelocity_total [OF False neighbours_in_dom [OF assms]]
  obtain v where "calculateAverageVelocity
      (getInsectsWithinDistance insect insectList ALIGNMENT_RADIUS) vels = Inr v"
    by blast
  with False show ?thesis by (simp add: getAlignmentCorrection_def)
qed

lemma withinAlignmentLimit_total:
  assumes "\<forall>b\<in>set insectList. mesh_id b \<in> dom vels" "mesh_id insect \<in> dom vels"
  shows "\<exists>b. withinAlignmentLimit insect insectList vels = Inr b"
proof (cases "getInsectsWithinDistance insect insectList ALIGNMENT_RADIUS = []")
  case True
  then show ?thesis by (auto simp: withinAlignmentLimit_def)
next
  case False
  from calculateAverageVelocity_total [OF False neighbours_in_dom [OF assms(1)]]
  obtain v where "calculateAverageVelocity
      (getInsectsWithinDistance insect insectList ALIGNMENT_RADIUS) vels = Inr v"
    by blast
  with False assms(2) show ?thesis by (auto simp: withinAlignmentLimit_def)
qed

lemma getNoiseAlignmentCorrections_total:
  assumes "\<forall>b\<in>set insectList. mesh_id b \<in> dom vels" "mesh_id insect \<in> dom vels"
  shows "\<exists>r. getNoiseAlignmentCorrections insect insectList vels g = Inr r"
proof -
  from withinAlignmentLimit_total [OF assms] obtain b
    where "withinAlignmentLimit insect insectList vels = Inr b" by blast
  then show ?thesis
    by (simp add: getNoiseAlignmentCorrections_def setLength_Inr Let_def split: prod.splits)
qed

lemma getNewVelocity_total:
  assumes "\<forall>b\<in>set insectList. mesh_id b \<in> dom vels" "mesh_id insect \<in> dom vels"
  shows "\<exists>r. getNewVelocity insect insectList vels g = Inr r"
proof -
  obtain sep where s: "getSeparationCorrection insect insectList = Inr sep"
    using getSeparationCorrection_total by blast
  obtain coh where c: "getCoherenceCorrection insect insectList = Inr coh"
    using getCoherenceCorrection_total by blast
  obtain noise g' where n: "getNoiseAlignmentCorrections insect insectList vels g = Inr (noise, g')"
    using getNoiseAlignmentCorrections_total [OF assms] by (metis surj_pair)
  from assms(2) obtain v0 where v: "vels (mesh_id insect) = Some v0" by auto
  show ?thesis
    by (simp add: getNewVelocity_def v s c n getAlignmentCorrection_total [OF assms(1)]
        clampLength_Inr)
qed

lemma insectsMinusOne_in_dom:
  "\<forall>ref\<in>set insectList. mesh_id (heap s ref) \<in> dom (velocities s)
   \<Longrightarrow> \<forall>b\<in>set (insectsMinusOne s insectList ref). mesh_id b \<in> dom (velocities s)"
  by (auto simp: insectsMinusOne_def)

lemma updateInsect_Inr_iff:
  "updateInsect insectList ref s = Inr s' \<longleftrightarrow>
     (\<exists>newVelocity g'.
        getNewVelocity (heap s ref) (insectsMinusOne s insectList ref) (velocities s) (generator s)
          = Inr (newVelocity, g')
        \<and> s' = s\<lparr>heap := (heap s)(ref := (lookAt (heap s ref)
                                            (addVectors (position (heap s ref)) newVelocity))
                                         \<lparr>position := addVectors (position (heap s ref)) newVelocity\<rparr>),
                  velocities := (velocities s)(mesh_id (heap s ref) \<mapsto> newVelocity),
                  generator := g'\<rparr>)"
  by (auto simp: updateInsect_def Let_def bind_err_eq_Inr)

lemma updateInsect_total:
  assumes "\<forall>r\<in>set insectList. mesh_id (heap s r) \<in> dom (velocities s)" "ref \<in> set insectList"
  shows "\<exists>s'. updateInsect insectList ref s = Inr s'"
proof -
  from assms have "mesh_id (heap s ref) \<in> dom (velocities s)" by blast
  from getNewVelocity_total [OF insectsMinusOne_in_dom [OF assms(1)] this]
  obtain v g' where "getNewVelocity (heap s ref) (insectsMinusOne s insectList ref) (velocities s)
      (generator s) = Inr (v, g')"
    by (metis surj_pair)
  then show ?thesis by (simp add: updateInsect_Inr_iff)
qed

lemma updateInsect_mesh_id:
  "updateInsect insectList ref s = Inr s' \<Longrightarrow> mesh_id (heap s' r) = mesh_id (heap s r)"
  by (auto simp: updateInsect_Inr_iff lookAt_def)

lemma updateInsect_misc:
  "updateInsect insectList ref s = Inr s' \<Longrightarrow>
     insects s' = insects s \<and> stepCounter s' = stepCounter s \<and> object3DId s' = object3DId s"
  by (auto simp: updateInsect_Inr_iff)

lemma updateInsect_dom:
  "updateInsect insectList ref s = Inr s' \<Longrightarrow> dom (velocities s) \<subseteq> dom (velocities s')"
  by (auto simp: updateInsect_Inr_iff)

lemma updateInsect_bounded_self:
  "updateInsect insectList ref s = Inr s' \<Longrightarrow> velocityBounded s' ref"
  by (auto simp: updateInsect_Inr_iff velocityBounded_def lookAt_def dest: getNewVelocity_bounded)

lemma updateInsect_bounded_other:
  "updateInsect insectList ref s = Inr s' \<Longrightarrow> velocityBounded s r \<Longrightarrow> velocityBounded s' r"
  by (auto simp: updateInsect_Inr_iff velocityBounded_def lookAt_def dest: getNewVelocity_bounded)

lemma forEachInsect_invariant:
  assumes "\<forall>r\<in>set insectList. mesh_id (heap s r) \<in> dom (velocities s)" "set todo \<subseteq> set insectList"
  shows "\<exists>s'. forEachInsect insectList todo s = Inr s'
           \<and> (\<forall>r\<in>set insectList. mesh_id (heap s' r) \<in> dom (velocities s'))
           \<and> (\<forall>r\<in>set todo. velocityBounded s' r)
           \<and> (\<forall>r. velocityBounded s r \<longrightarrow> velocityBounded s' r)
           \<and> insects s' = insects s \<and> stepCounter s' = stepCounter s"
  using assms
proof (induction todo arbitrary: s)
  case Nil
  then show ?case by simp
next
  case (Cons ref rest)
  from Cons.prems have mem: "ref \<in> set insectList" and sub: "set rest \<subseteq> set insectList"
    by auto
  from updateInsect_total [OF Cons.prems(1) mem]
  obtain s1 where s1: "updateInsect insectList ref s = Inr s1" by blast
  have inv1: "\<forall>r\<in>set insectList. mesh_id (heap s1 r) \<in> dom (velocities s1)"
    using Cons.prems(1) updateInsect_mesh_id [OF s1] updateInsect_dom [OF s1] by (metis subsetD)
  from Cons.IH [OF inv1 sub] obtain s' where
    run: "forEachInsect insectList rest s1 = Inr s'"
    and inv: "\<forall>r\<in>set insectList. mesh_id (heap s' r) \<in> dom (velocities s')"
    and bnd: "\<forall>r\<in>set rest. velocityBounded s' r"
    and keep: "\<forall>r. velocityBounded s1 r \<longrightarrow> velocityBounded s' r"
    and same: "insects s' = insects s1" "stepCounter s' = stepCounter s1"
    by blast
  have "forEachInsect insectList (ref # rest) s = Inr s'"
    by (simp add: s1 run)
  moreover have "velocityBounded s' ref"
    using keep updateInsect_bounded_self [OF s1] by blast
  moreover have "\<forall>r. velocityBounded s r \<longrightarrow> velocityBounded s' r"
    using keep updateInsect_bounded_other [OF s1] by blast
  moreover have "insects s' = insects s \<and> stepCounter s' = stepCounter s"
    using same updateInsect_misc [OF s1] by simp
  ultimately show ?case
    using inv bnd by auto
qed

lemma updatePositions_invariant:
  assumes "wellFormed s"
  shows "\<exists>s'. updatePositions (insects s) s = Inr s' \<and> wellFormed s' \<and> allBounded s'
           \<and> insects s' = insects s \<and> stepCounter s' = stepCounter s"
proof -
  from assms have inv: "\<forall>r\<in>set (insects s). mesh_id (heap s r) \<in> dom (velocities s)"
    by (simp add: wellFormed_def)
  from forEachInsect_invariant [OF inv subset_refl]
  show ?thesis
    by (auto simp: updatePositions_def wellFormed_def allBounded_def)
qed

lemma animate_invariant:
  assumes "wellFormed s"
  shows "\<exists>s'. animate s = Inr s' \<and> wellFormed s'
           \<and> (stepCounter s < STEPS \<or> allBounded s \<longrightarrow> allBounded s')"
proof (cases "stepCounter s < STEPS")
  case True
  from updatePositions_invariant [OF assms] obtain s1 where
    "updatePositions (insects s) s = Inr s1" "wellFormed s1" "allBounded s1"
    by blast
  with True show ?thesis
    by (simp add: animate_def wellFormed_def allBounded_def velocityBounded_def)
next
  case False
  with assms show ?thesis by (simp add: animate_def)
qed



lemma frames_total:
  assumes "wellFormed s"
  shows "\<exists>s'. frames n s = Inr s' \<and> wellFormed s'"
  using assms
proof (induction n arbitrary: s)
  case 0
  then show ?case by simp
next
  case (Suc n)
  from animate_invariant [OF Suc.prems] obtain s1 where
    "animate s = Inr s1" "wellFormed s1" by blast
  with Suc.IH [of s1] show ?case by simp
qed

lemma createInsect_idsAreRefs: "idsAreRefs s \<Longrightarrow> idsAreRefs (createInsect s)"
  by (auto simp: idsAreRefs_def createInsect_def newMesh_def generateUUID_def Math_random_def Let_def)


lemma createInsects_idsAreRefs: "idsAreRefs s \<Longrightarrow> idsAreRefs (createInsects n s)"
  by (induction n arbitrary: s) (simp_all add: createInsect_idsAreRefs)


lemma idsAreRefs_wellFormed: "idsAreRefs s \<Longrightarrow> wellFormed s"
  by (auto simp: idsAreRefs_def wellFormed_def)

lemma emptyState_idsAreRefs: "idsAreRefs (emptyState firstId g)"
  by (simp add: idsAreRefs_def emptyState_def)

lemma initialState_wellFormed: "wellFormed (initialState firstId g)"
  unfolding initialState_def
  by (rule idsAreRefs_wellFormed, rule createInsects_idsAreRefs, rule emptyState_idsAreRefs)


lemma length_v_axis: "length_v (Vector3 a 0 0) = \<bar>a\<bar>"
  by (simp add: length_v_def)





subsection \<open>The clamp in double precision\<close>

lemma roundHalfEven_error: "\<bar>of_int (roundHalfEven x) - x\<bar> \<le> 1 / 2"
  unfolding roundHalfEven_def Let_def by (auto simp: abs_if) linarith+

lemma binade:
  assumes "x \<noteq> 0"
  shows "2 powr (of_int \<lfloor>log 2 \<bar>x\<bar>\<rfloor>) \<le> \<bar>x\<bar>"
proof -
  have "of_int \<lfloor>log 2 \<bar>x\<bar>\<rfloor> \<le> log 2 \<bar>x\<bar>" by simp
  moreover from assms have "0 < \<bar>x\<bar>" by simp
  ultimately show ?thesis
    using le_log_iff [of 2 "\<bar>x\<bar>" "of_int \<lfloor>log 2 \<bar>x\<bar>\<rfloor>"] by simp
qed

lemma double_error: "\<bar>double x - x\<bar> \<le> \<bar>x\<bar> / 2 ^ 53"
proof (cases "x = 0")
  case True
  then show ?thesis by (simp add: double_def)
next
  case False
  define e where "e = \<lfloor>log 2 \<bar>x\<bar>\<rfloor>"
  define ulp :: real where "ulp = 2 powr (of_int e - 52)"
  have ulp: "0 < ulp" by (simp add: ulp_def)
  have d: "double x = of_int (roundHalfEven (x / ulp)) * ulp"
    using False by (simp add: double_def Let_def e_def ulp_def)
  have "\<bar>double x - x\<bar> = \<bar>of_int (roundHalfEven (x / ulp)) - x / ulp\<bar> * ulp"
  proof -
    have "double x - x = (of_int (roundHalfEven (x / ulp)) - x / ulp) * ulp"
      using ulp by (simp add: d field_simps)
    then show ?thesis using ulp by (simp add: abs_mult)
  qed
  also have "\<dots> \<le> 1 / 2 * ulp"
    using roundHalfEven_error [of "x / ulp"] ulp by (simp add: mult_right_mono)
  also have "\<dots> = 2 powr (of_int e) / 2 ^ 53"
  proof -
    have "ulp = 2 powr (of_int e) / 2 powr 52"
      by (simp add: ulp_def powr_diff)
    moreover have "(2::real) powr 52 = 2 ^ 52"
      using powr_numeral [of "2::real" "num.Bit0 (num.Bit0 (num.Bit1 (num.Bit0 (num.Bit1 num.One))))"]
      by simp
    ultimately show ?thesis by simp
  qed
  also have "\<dots> \<le> \<bar>x\<bar> / 2 ^ 53"
    using binade [OF False] by (simp add: e_def divide_right_mono)
  finally show ?thesis .
qed


lemma double_0: "double 0 = 0"
  by (simp add: double_def)


























lemma double_abs_bounds:
  shows "\<bar>t\<bar> * (1 - 1 / 2 ^ 53) \<le> \<bar>double t\<bar>" and "\<bar>double t\<bar> \<le> \<bar>t\<bar> * (1 + 1 / 2 ^ 53)"
proof -
  have e: "\<bar>double t - t\<bar> \<le> \<bar>t\<bar> / 9007199254740992"
    using double_error [of t] by simp
  have "\<bar>t\<bar> - \<bar>double t - t\<bar> \<le> \<bar>double t\<bar>" by linarith
  with e have "\<bar>t\<bar> - \<bar>t\<bar> / 9007199254740992 \<le> \<bar>double t\<bar>" by linarith
  then show "\<bar>t\<bar> * (1 - 1 / 2 ^ 53) \<le> \<bar>double t\<bar>"
    by (simp add: algebra_simps)
  have "\<bar>double t\<bar> \<le> \<bar>t\<bar> + \<bar>double t - t\<bar>" by linarith
  with e have "\<bar>double t\<bar> \<le> \<bar>t\<bar> + \<bar>t\<bar> / 9007199254740992" by linarith
  then show "\<bar>double t\<bar> \<le> \<bar>t\<bar> * (1 + 1 / 2 ^ 53)"
    by (simp add: algebra_simps)
qed

lemma double_zero_iff: "double t = 0 \<longleftrightarrow> t = 0"
  using double_abs_bounds(1) [of t] by (auto simp: double_0)










subsection \<open>The order of updates within a step\<close>

lemma forEachInsect_append:
  "forEachInsect insectList (xs @ ys) s =
     bind_err (forEachInsect insectList xs s) (forEachInsect insectList ys)"
proof (induction xs arbitrary: s)
  case Nil
  then show ?case by simp
next
  case (Cons x xs)
  then show ?case by (cases "updateInsect insectList x s") simp_all
qed

lemma updateInsect_heap_other:
  "updateInsect insectList ref s = Inr s' \<Longrightarrow> r \<noteq> ref \<Longrightarrow> heap s' r = heap s r"
  by (auto simp: updateInsect_Inr_iff)

lemma updateInsect_velocity_other:
  "updateInsect insectList ref s = Inr s' \<Longrightarrow> k \<noteq> mesh_id (heap s ref)
   \<Longrightarrow> velocities s' k = velocities s k"
  by (auto simp: updateInsect_Inr_iff)

lemma forEachInsect_mesh_id:
  "forEachInsect insectList todo s = Inr s' \<Longrightarrow> mesh_id (heap s' r) = mesh_id (heap s r)"
proof (induction todo arbitrary: s)
  case Nil
  then show ?case by simp
next
  case (Cons x xs)
  from Cons.prems obtain s1 where s1: "updateInsect insectList x s = Inr s1"
    and rest: "forEachInsect insectList xs s1 = Inr s'"
    by (auto simp: bind_err_eq_Inr)
  from Cons.IH [OF rest] updateInsect_mesh_id [OF s1] show ?case by simp
qed

lemma forEachInsect_untouched:
  "forEachInsect insectList todo s = Inr s'
   \<Longrightarrow> mesh_id (heap s r) \<notin> (\<lambda>t. mesh_id (heap s t)) ` set todo
   \<Longrightarrow> heap s' r = heap s r \<and> velocities s' (mesh_id (heap s r)) = velocities s (mesh_id (heap s r))"
proof (induction todo arbitrary: s)
  case Nil
  then show ?case by simp
next
  case (Cons x xs)
  from Cons.prems(1) obtain s1 where s1: "updateInsect insectList x s = Inr s1"
    and rest: "forEachInsect insectList xs s1 = Inr s'"
    by (auto simp: bind_err_eq_Inr)
  from Cons.prems(2) have ne: "mesh_id (heap s r) \<noteq> mesh_id (heap s x)"
    and out: "mesh_id (heap s r) \<notin> (\<lambda>t. mesh_id (heap s t)) ` set xs"
    by auto
  from ne have rx: "r \<noteq> x" by auto
  have ids: "\<And>t. mesh_id (heap s1 t) = mesh_id (heap s t)"
    using updateInsect_mesh_id [OF s1] by simp
  from out have out1: "mesh_id (heap s1 r) \<notin> (\<lambda>t. mesh_id (heap s1 t)) ` set xs"
    by (simp add: ids)
  from Cons.IH [OF rest out1] have
    "heap s' r = heap s1 r \<and> velocities s' (mesh_id (heap s1 r)) = velocities s1 (mesh_id (heap s1 r))"
    .
  with updateInsect_heap_other [OF s1 rx] updateInsect_velocity_other [OF s1 ne] ids
  show ?case by simp
qed

text \<open>
  C2, as the code has it. \<open>updatePositions\<close> commits each insect's new velocity and
  position before it turns to the next insect. When the turn of the insect \<open>ref\<close> comes,
  its corrections are computed by \<open>getNewVelocity\<close> in the store \<open>s1\<close> reached after the
  insects earlier in the list have been committed: those already carry the positions and
  velocities they have at the end of the step, while \<open>ref\<close> and the insects later in the
  list still carry the ones from the start of the step. The velocity computed there is
  the one stored for \<open>ref\<close> at the end of the step.
\<close>

theorem sequential_update:
  assumes run: "updatePositions (earlier @ ref # later) s = Inr s'"
    and ids: "distinct (map (\<lambda>r. mesh_id (heap s r)) (earlier @ ref # later))"
  shows "\<exists>s1 newVelocity g1.
           forEachInsect (earlier @ ref # later) earlier s = Inr s1
         \<and> getNewVelocity (heap s1 ref) (insectsMinusOne s1 (earlier @ ref # later) ref)
               (velocities s1) (generator s1) = Inr (newVelocity, g1)
         \<and> velocities s' (mesh_id (heap s ref)) = Some newVelocity
         \<and> position (heap s' ref) = addVectors (position (heap s1 ref)) newVelocity
         \<and> (\<forall>r\<in>set earlier. heap s1 r = heap s' r
               \<and> velocities s1 (mesh_id (heap s r)) = velocities s' (mesh_id (heap s r)))
         \<and> (\<forall>r\<in>set (ref # later). heap s1 r = heap s r
               \<and> velocities s1 (mesh_id (heap s r)) = velocities s (mesh_id (heap s r)))"
proof -
  let ?L = "earlier @ ref # later"
  from run have "bind_err (forEachInsect ?L earlier s) (forEachInsect ?L (ref # later)) = Inr s'"
    by (simp add: updatePositions_def forEachInsect_append)
  then obtain s1 where s1: "forEachInsect ?L earlier s = Inr s1"
    and tail: "forEachInsect ?L (ref # later) s1 = Inr s'"
    by (auto simp: bind_err_eq_Inr)
  from tail obtain s2 where s2: "updateInsect ?L ref s1 = Inr s2"
    and rest: "forEachInsect ?L later s2 = Inr s'"
    by (auto simp: bind_err_eq_Inr)
  from s2 obtain newVelocity g1 where
    nv: "getNewVelocity (heap s1 ref) (insectsMinusOne s1 ?L ref) (velocities s1) (generator s1)
           = Inr (newVelocity, g1)"
    and s2_eq: "s2 = s1\<lparr>heap := (heap s1)(ref := (lookAt (heap s1 ref)
                                            (addVectors (position (heap s1 ref)) newVelocity))
                                         \<lparr>position := addVectors (position (heap s1 ref)) newVelocity\<rparr>),
                  velocities := (velocities s1)(mesh_id (heap s1 ref) \<mapsto> newVelocity),
                  generator := g1\<rparr>"
    by (auto simp: updateInsect_Inr_iff)
  have id1: "\<And>t. mesh_id (heap s1 t) = mesh_id (heap s t)"
    using forEachInsect_mesh_id [OF s1] by simp
  have id2: "\<And>t. mesh_id (heap s2 t) = mesh_id (heap s t)"
    using updateInsect_mesh_id [OF s2] id1 by simp
  \<comment> \<open>the insects after \<open>ref\<close> do not write to \<open>ref\<close>\<close>
  from ids have "mesh_id (heap s ref) \<notin> (\<lambda>t. mesh_id (heap s t)) ` set later"
    by auto
  then have "mesh_id (heap s2 ref) \<notin> (\<lambda>t. mesh_id (heap s2 t)) ` set later"
    by (simp add: id2)
  from forEachInsect_untouched [OF rest this] have
    keep: "heap s' ref = heap s2 ref"
      "velocities s' (mesh_id (heap s ref)) = velocities s2 (mesh_id (heap s ref))"
    by (simp_all add: id2)
  from s2_eq have v2: "velocities s2 (mesh_id (heap s ref)) = Some newVelocity"
    and p2: "position (heap s2 ref) = addVectors (position (heap s1 ref)) newVelocity"
    by (simp_all add: id1)
  \<comment> \<open>the insects before \<open>ref\<close> are not written to again\<close>
  have early: "heap s1 r = heap s' r
      \<and> velocities s1 (mesh_id (heap s r)) = velocities s' (mesh_id (heap s r))"
    if r: "r \<in> set earlier" for r
  proof -
    from ids have "mesh_id (heap s ref) \<notin> (\<lambda>t. mesh_id (heap s t)) ` set earlier"
      and "(\<lambda>t. mesh_id (heap s t)) ` set earlier \<inter> (\<lambda>t. mesh_id (heap s t)) ` set later = {}"
      by auto
    with r have "mesh_id (heap s r) \<notin> (\<lambda>t. mesh_id (heap s t)) ` set (ref # later)"
      by (auto simp: disjoint_iff image_iff)
    then have "mesh_id (heap s1 r) \<notin> (\<lambda>t. mesh_id (heap s1 t)) ` set (ref # later)"
      by (simp add: id1)
    from forEachInsect_untouched [OF tail this] show ?thesis
      by (simp add: id1)
  qed
  \<comment> \<open>\<open>ref\<close> and the insects after it have not been written to yet\<close>
  have late: "heap s1 r = heap s r
      \<and> velocities s1 (mesh_id (heap s r)) = velocities s (mesh_id (heap s r))"
    if r: "r \<in> set (ref # later)" for r
  proof -
    from ids have "mesh_id (heap s ref) \<notin> (\<lambda>t. mesh_id (heap s t)) ` set earlier"
      and "(\<lambda>t. mesh_id (heap s t)) ` set earlier \<inter> (\<lambda>t. mesh_id (heap s t)) ` set later = {}"
      by auto
    with r have "mesh_id (heap s r) \<notin> (\<lambda>t. mesh_id (heap s t)) ` set earlier"
      by (auto simp: disjoint_iff image_iff)
    from forEachInsect_untouched [OF s1 this] show ?thesis .
  qed
  have "forEachInsect ?L earlier s = Inr s1
         \<and> getNewVelocity (heap s1 ref) (insectsMinusOne s1 ?L ref)
               (velocities s1) (generator s1) = Inr (newVelocity, g1)
         \<and> velocities s' (mesh_id (heap s ref)) = Some newVelocity
         \<and> position (heap s' ref) = addVectors (position (heap s1 ref)) newVelocity
         \<and> (\<forall>r\<in>set earlier. heap s1 r = heap s' r
               \<and> velocities s1 (mesh_id (heap s r)) = velocities s' (mesh_id (heap s r)))
         \<and> (\<forall>r\<in>set (ref # later). heap s1 r = heap s r
               \<and> velocities s1 (mesh_id (heap s r)) = velocities s (mesh_id (heap s r)))"
    using s1 nv keep v2 p2 early late by simp
  then show ?thesis
    by (intro exI)
qed

lemmas eval_defs =
  getNewVelocity_def getSeparationCorrection_def getAlignmentCorrection_def
  getCoherenceCorrection_def getNoiseAlignmentCorrections_def withinAlignmentLimit_def
  getInsectsWithinDistance_def getBoundsCorrection_def withinDistance_def distanceTo_def
  distanceToSquared_def calculateAveragePosition_def calculateAverageVelocity_def
  divideScalar_def angleTo_def lengthSq_def dot_def clamp_def insectsMinusOne_def
  clampLength_Inr length_v_axis or_one_def multiplyScalar_def subVectors_def add_def zero_def
  addVectors_def lookAt_def
  X_LIM_def Y_LIM_def Z_LIM_def VELOCITY_LIM_def SEPARATION_RADIUS_def ALIGNMENT_RADIUS_def
  COHESION_RADIUS_def SEPARATION_FACTOR_def COHESION_FACTOR_def NOISE_ANGLE_def NOISE_FACTOR_def

lemma pair_snapshot_velocity:
  "getNewVelocity (heap pairState 1) (insectsMinusOne pairState (insects pairState) 1)
     (velocities pairState) (generator pairState) = Inr (Vector3 1 0 0, \<lambda>n. 0)"
  by (simp add: pairState_def eval_defs)

lemma pair_first_velocity:
  "getNewVelocity (heap pairState 0) (insectsMinusOne pairState [0, 1] 0)
     (velocities pairState) (generator pairState) = Inr (Vector3 1 0 0, \<lambda>n. 0)"
  by (simp add: pairState_def eval_defs)

lemma pair_first_step: "updateInsect [0, 1] 0 pairState = Inr pairStateAfterFirst"
  unfolding updateInsect_Inr_iff
  by (intro exI conjI, rule pair_first_velocity)
     (auto simp: pairState_def pairStateAfterFirst_def addVectors_def lookAt_def fun_eq_iff)

lemma pair_second_velocity:
  "getNewVelocity (heap pairStateAfterFirst 1) (insectsMinusOne pairStateAfterFirst [0, 1] 1)
     (velocities pairStateAfterFirst) (generator pairStateAfterFirst)
   = Inr (Vector3 (24 / 25) 0 0, \<lambda>n. 0)"
  by (simp add: pairStateAfterFirst_def eval_defs)

lemma pair_second_step: "updateInsect [0, 1] 1 pairStateAfterFirst = Inr pairStateAfterSecond"
  unfolding updateInsect_Inr_iff
  by (intro exI conjI, rule pair_second_velocity)
     (auto simp: pairStateAfterFirst_def pairStateAfterSecond_def addVectors_def lookAt_def fun_eq_iff)

lemma pair_run: "updatePositions (insects pairState) pairState = Inr pairStateAfterSecond"
proof -
  have ins: "insects pairState = [0, 1]" by (simp add: pairState_def)
  show ?thesis
    unfolding ins updatePositions_def
    by (simp only: forEachInsect.simps pair_first_step pair_second_step bind_err_Inr)
qed

text \<open>
  C2 as stated fails. Two insects at the origin, both with velocity \<open>(1, 0, 0)\<close>: the
  step stores \<open>(0.96, 0, 0)\<close> for the second insect, because its separation and cohesion
  corrections read the position the first insect has just moved to; computed from the
  positions and velocities at the start of the step its new velocity is \<open>(1, 0, 0)\<close>.
\<close>

theorem in_place_update_counterexample:
  "(\<exists>s'. updatePositions (insects pairState) pairState = Inr s'
        \<and> velocities s' 1 = Some (Vector3 (24 / 25) 0 0))
   \<and> getNewVelocity (heap pairState 1) (insectsMinusOne pairState (insects pairState) 1)
        (velocities pairState) (generator pairState) = Inr (Vector3 1 0 0, \<lambda>n. 0)"
  using pair_run pair_snapshot_velocity by (simp add: pairStateAfterSecond_def)

theorem sequential_update_witness:
  "distinct (map (\<lambda>r. mesh_id (heap pairState r)) ([0] @ 1 # []))
   \<and> (\<exists>s' s1 newVelocity g1.
          updatePositions ([0] @ 1 # []) pairState = Inr s'
        \<and> forEachInsect ([0] @ 1 # []) [0] pairState = Inr s1
        \<and> getNewVelocity (heap s1 1) (insectsMinusOne s1 ([0] @ 1 # []) 1)
               (velocities s1) (generator s1) = Inr (newVelocity, g1)
        \<and> velocities s' (mesh_id (heap pairState 1)) = Some newVelocity
        \<and> position (heap s' 1) = addVectors (position (heap s1 1)) newVelocity
        \<and> heap s1 0 = heap s' 0 \<and> heap s1 1 = heap pairState 1)"
proof -
  have ids: "distinct (map (\<lambda>r. mesh_id (heap pairState r)) ([0] @ 1 # []))"
    by (simp add: pairState_def)
  from pair_run have run: "updatePositions ([0] @ 1 # []) pairState = Inr pairStateAfterSecond"
    by (simp add: pairState_def)
  from sequential_update [OF run ids] run ids show ?thesis
    by fastforce
qed

subsection \<open>The velocity limit, exactly and in double precision\<close>










subsection \<open>Noise alignment correction\<close>

lemma withinAlignmentLimit_no_neighbours:
  "getInsectsWithinDistance insect insectList ALIGNMENT_RADIUS = []
   \<Longrightarrow> withinAlignmentLimit insect insectList vels = Inr False"
  by (simp add: withinAlignmentLimit_def)

lemma withinAlignmentLimit_neighbours:
  "getInsectsWithinDistance insect insectList ALIGNMENT_RADIUS \<noteq> []
   \<Longrightarrow> calculateAverageVelocity (getInsectsWithinDistance insect insectList ALIGNMENT_RADIUS) vels
        = Inr averageVelocity
   \<Longrightarrow> vels (mesh_id insect) = Some insectVelocity
   \<Longrightarrow> withinAlignmentLimit insect insectList vels
        = Inr (angleTo insectVelocity averageVelocity < NOISE_ANGLE)"
  by (simp add: withinAlignmentLimit_def)

lemma randomDirection_eq:
  "randomDirection g =
     (Vector3 (sqrt (1 - (g 1 * 2 - 1) * (g 1 * 2 - 1)) * cos (g 0 * pi * 2))
              (g 1 * 2 - 1)
              (sqrt (1 - (g 1 * 2 - 1) * (g 1 * 2 - 1)) * sin (g 0 * pi * 2)),
      \<lambda>n. g (Suc (Suc n)))"
  by (simp add: randomDirection_def Math_random_def Let_def)

lemma sphere_point_unit:
  assumes "0 \<le> r" "r < 1"
  shows "length_v (Vector3 (sqrt (1 - (r * 2 - 1) * (r * 2 - 1)) * cos t)
                           (r * 2 - 1)
                           (sqrt (1 - (r * 2 - 1) * (r * 2 - 1)) * sin t)) = 1"
proof -
  define u where "u = r * 2 - 1"
  define c where "c = sqrt (1 - u * u)"
  from assms have "- 1 \<le> u" "u < 1" by (simp_all add: u_def)
  then have "u * u \<le> 1"
    by (metis abs_le_iff abs_square_le_1 less_eq_real_def minus_le_iff power2_eq_square)
  then have cc: "c * c = 1 - u * u"
    by (simp add: c_def)
  have "(c * cos t) * (c * cos t) + u * u + (c * sin t) * (c * sin t)
      = (c * c) * ((cos t)\<^sup>2 + (sin t)\<^sup>2) + u * u"
    unfolding power2_eq_square by (simp only: algebra_simps)
  also have "\<dots> = 1"
    by (simp add: cc)
  finally show ?thesis
    by (simp add: length_v_def u_def [symmetric] c_def [symmetric])
qed

lemma noise_not_aligned:
  assumes w: "withinAlignmentLimit insect insectList vels = Inr False"
    and draws: "\<forall>i<3. 0 \<le> g i \<and> g i < 1"
  shows "getNoiseAlignmentCorrections insect insectList vels g =
           Inr (multiplyScalar (multiplyScalar (fst (randomDirection g)) (g 2 * VELOCITY_LIM))
                  NOISE_FACTOR,
                \<lambda>n. g (n + 3))
         \<and> length_v (fst (randomDirection g)) = 1
         \<and> length_v (multiplyScalar (fst (randomDirection g)) (g 2 * VELOCITY_LIM))
             = g 2 * VELOCITY_LIM
         \<and> 0 \<le> g 2 * VELOCITY_LIM \<and> g 2 * VELOCITY_LIM < VELOCITY_LIM"
proof -
  from draws have g1: "0 \<le> g 1" "g 1 < 1" and g2: "0 \<le> g 2" "g 2 < 1"
    by simp_all
  have unit: "length_v (fst (randomDirection g)) = 1"
    unfolding randomDirection_eq fst_conv by (rule sphere_point_unit [OF g1])
  have third: "Math_random (snd (randomDirection g)) = (g 2, \<lambda>n. g (n + 3))"
    by (simp add: randomDirection_eq Math_random_def numeral_2_eq_2 numeral_3_eq_3)
  have "getNoiseAlignmentCorrections insect insectList vels g =
           Inr (multiplyScalar (multiplyScalar (fst (randomDirection g)) (g 2 * VELOCITY_LIM))
                  NOISE_FACTOR,
                \<lambda>n. g (n + 3))"
    by (simp add: getNoiseAlignmentCorrections_def w split_beta third setLength_Inr unit
        or_one_def multiplyScalar_twice)
  moreover from g2 have "length_v (multiplyScalar (fst (randomDirection g)) (g 2 * VELOCITY_LIM))
             = g 2 * VELOCITY_LIM"
    by (simp add: length_v_multiplyScalar unit VELOCITY_LIM_def)
  moreover from g2 have "0 \<le> g 2 * VELOCITY_LIM \<and> g 2 * VELOCITY_LIM < VELOCITY_LIM"
    by (simp add: VELOCITY_LIM_def)
  ultimately show ?thesis using unit by blast
qed

lemma noise_aligned:
  assumes w: "withinAlignmentLimit insect insectList vels = Inr True"
  shows "getNoiseAlignmentCorrections insect insectList vels g = Inr (zero, g)"
  by (simp add: getNoiseAlignmentCorrections_def w multiplyScalar_zero_vec)

lemma pair_neighbours:
  "getInsectsWithinDistance (heap pairState 0) (insectsMinusOne pairState [0, 1] 0) ALIGNMENT_RADIUS
     = [heap pairState 1]"
  by (simp add: pairState_def eval_defs)

lemma pair_average_velocity:
  "calculateAverageVelocity [heap pairState 1] (velocities pairState) = Inr (Vector3 1 0 0)"
  by (simp add: pairState_def eval_defs)

lemma angle_same_direction: "angleTo (Vector3 1 0 0) (Vector3 1 0 0) < NOISE_ANGLE"
  by (simp add: eval_defs)

lemma noise_draws:
  "getNoiseAlignmentCorrections insect insectList vels g =
     bind_err (withinAlignmentLimit insect insectList vels)
       (\<lambda>aligned.
          if \<not> aligned
          then bind_err (setLength (fst (randomDirection g)) (g 2 * VELOCITY_LIM))
                 (\<lambda>alignmentVector. Inr (multiplyScalar alignmentVector NOISE_FACTOR,
                                          \<lambda>n. g (n + 3)))
          else Inr (multiplyScalar zero NOISE_FACTOR, g))"
proof -
  have third: "Math_random (snd (randomDirection g)) = (g 2, \<lambda>n. g (n + 3))"
    by (simp add: randomDirection_eq Math_random_def numeral_2_eq_2 numeral_3_eq_3)
  show ?thesis
    by (simp add: getNoiseAlignmentCorrections_def split_beta third Let_def cong: if_cong)
qed

lemma randomDirection_spherePoint: "fst (randomDirection g) = spherePoint (g 0) (g 1)"
  by (simp add: randomDirection_eq spherePoint_def)

lemma spherePoint_unit: "0 \<le> r2 \<Longrightarrow> r2 < 1 \<Longrightarrow> length_v (spherePoint r1 r2) = 1"
  unfolding spherePoint_def by (rule sphere_point_unit)

lemma spherePoint_onto:
  assumes unit: "length_v d = 1" and np: "vec_y d < 1"
  shows "\<exists>r1 r2. 0 \<le> r1 \<and> r1 < 1 \<and> 0 \<le> r2 \<and> r2 < 1 \<and> spherePoint r1 r2 = d"
proof -
  obtain x y z where d: "d = Vector3 x y z" by (cases d)
  from unit d have sq: "x * x + y * y + z * z = 1"
    by (simp add: length_v_def)
  from np d have y1: "y < 1" by simp
  have "y * y \<le> 1"
    using sq by (smt (verit) zero_le_square mult_nonneg_nonneg)
  then have ym: "- 1 \<le> y"
    by (smt (verit, ccfv_SIG) mult_le_cancel_left1 mult_minus_left mult_minus_right)
  define r2 where "r2 = (y + 1) / 2"
  have r2: "0 \<le> r2" "r2 < 1" "r2 * 2 - 1 = y"
    using ym y1 by (simp_all add: r2_def field_simps)
  define c where "c = sqrt (1 - y * y)"
  have cc: "c * c = x * x + z * z"
    using sq \<open>y * y \<le> 1\<close> by (simp add: c_def)
  show ?thesis
  proof (cases "c = 0")
    case True
    with cc have "x = 0" "z = 0"
      by (smt (verit) zero_le_square mult_eq_0_iff)+
    with True r2 have "spherePoint 0 r2 = d"
      by (simp add: spherePoint_def d c_def)
    with r2 show ?thesis by (intro exI [of _ 0] exI [of _ r2]) simp
  next
    case False
    have cpos: "0 < c" using False \<open>y * y \<le> 1\<close> by (simp add: c_def less_le)
    have "(x / c)\<^sup>2 + (z / c)\<^sup>2 = (x * x + z * z) / (c * c)"
      by (simp add: power2_eq_square add_divide_distrib)
    also have "\<dots> = (c * c) / (c * c)"
      by (simp only: cc)
    also have "\<dots> = 1"
      using False by simp
    finally have "(x / c)\<^sup>2 + (z / c)\<^sup>2 = 1" .
    then obtain t where t: "0 \<le> t" "t < 2 * pi" "x / c = cos t" "z / c = sin t"
      using sincos_total_2pi by blast
    define r1 where "r1 = t / (2 * pi)"
    have r1: "0 \<le> r1" "r1 < 1" "r1 * pi * 2 = t"
      using t by (simp_all add: r1_def field_simps)
    from t False have "c * cos t = x" "c * sin t = z" by (simp_all add: field_simps)
    with r1 r2 have "spherePoint r1 r2 = d"
      by (simp add: spherePoint_def d c_def)
    with r1 r2 show ?thesis by (intro exI [of _ r1] exI [of _ r2]) simp
  qed
qed

lemma spherePoint_inj:
  assumes r1: "0 \<le> r1" "r1 < 1" and r1': "0 \<le> r1'" "r1' < 1"
    and r2: "0 < r2" "r2 < 1"
    and eq: "spherePoint r1 r2 = spherePoint r1' r2'"
  shows "r1 = r1' \<and> r2 = r2'"
proof -
  from eq have y: "r2 = r2'" by (simp add: spherePoint_def)
  define c where "c = sqrt (1 - (r2 * 2 - 1) * (r2 * 2 - 1))"
  from r2 have "\<bar>r2 * 2 - 1\<bar> < 1" by simp
  then have "(r2 * 2 - 1) * (r2 * 2 - 1) < 1"
    by (metis abs_mult_self_eq abs_ge_zero mult_less_cancel_left2 mult_strict_mono
        mult_1 less_eq_real_def not_less)
  then have cpos: "0 < c" by (simp add: c_def)
  from eq y have "c * cos (r1 * pi * 2) = c * cos (r1' * pi * 2)"
    "c * sin (r1 * pi * 2) = c * sin (r1' * pi * 2)"
    unfolding spherePoint_def c_def by (simp_all only: Vector3.inject)
  with cpos have "cos (r1 * pi * 2) = cos (r1' * pi * 2)" "sin (r1 * pi * 2) = sin (r1' * pi * 2)"
    by simp_all
  then obtain n :: int where n: "r1 * pi * 2 = r1' * pi * 2 + 2 * pi * n"
    using sin_cos_eq_iff [of "r1 * pi * 2" "r1' * pi * 2"] by auto
  then have "(r1 - r1') * (2 * pi) = real_of_int n * (2 * pi)"
    by (simp add: algebra_simps)
  then have d: "r1 - r1' = real_of_int n"
    by simp
  from r1 r1' have "- 1 < r1 - r1'" "r1 - r1' < 1" by simp_all
  with d have "n = 0" by linarith
  with d y show ?thesis by simp
qed

lemma spherePoint_tangents:
  fixes r1 r2 :: real
  assumes r2: "0 < r2" "r2 < 1"
  defines "u \<equiv> r2 * 2 - 1"
  defines "c \<equiv> sqrt (1 - (r2 * 2 - 1) * (r2 * 2 - 1))"
  defines "t1 \<equiv> Vector3 (- (2 * pi) * c * sin (r1 * pi * 2)) 0 (2 * pi * c * cos (r1 * pi * 2))"
  defines "t2 \<equiv> Vector3 (- (2 * u / c) * cos (r1 * pi * 2)) 2 (- (2 * u / c) * sin (r1 * pi * 2))"
  shows "((\<lambda>r. vec_x (spherePoint r r2)) has_real_derivative vec_x t1) (at r1)"
    and "((\<lambda>r. vec_y (spherePoint r r2)) has_real_derivative vec_y t1) (at r1)"
    and "((\<lambda>r. vec_z (spherePoint r r2)) has_real_derivative vec_z t1) (at r1)"
    and "((\<lambda>r. vec_x (spherePoint r1 r)) has_real_derivative vec_x t2) (at r2)"
    and "((\<lambda>r. vec_y (spherePoint r1 r)) has_real_derivative vec_y t2) (at r2)"
    and "((\<lambda>r. vec_z (spherePoint r1 r)) has_real_derivative vec_z t2) (at r2)"
    and "length_v (crossVectors t1 t2) = 4 * pi"
proof -
  from r2 have "\<bar>r2 * 2 - 1\<bar> < 1" by simp
  then have lt: "(r2 * 2 - 1) * (r2 * 2 - 1) < 1"
    by (metis abs_mult_self_eq abs_ge_zero mult_less_cancel_left2 mult_strict_mono
        mult_1 less_eq_real_def not_less)
  then have pos: "0 < 1 - (r2 * 2 - 1) * (r2 * 2 - 1)" by simp
  then have cpos: "0 < c" by (simp add: c_def)
  have cc: "c * c = 1 - u * u"
    using pos by (simp add: c_def u_def)
  have dc: "((\<lambda>r. sqrt (1 - (r * 2 - 1) * (r * 2 - 1))) has_real_derivative (- (2 * u / c))) (at r2)"
  proof -
    have alg: "(0 - (2 * a + a * 2)) * (inverse b / 2) = - (2 * a / b)" for a b :: real
      by (cases "b = 0") (simp_all add: field_simps)
    have e: "(0 - (2 * (r2 * 2 - 1) + (r2 * 2 - 1) * 2)) * (inverse (sqrt (1 - (r2 * 2 - 1) * (r2 * 2 - 1))) / 2)
        = - (2 * u / c)"
      unfolding u_def c_def by (rule alg)
    have "((\<lambda>r. sqrt (1 - (r * 2 - 1) * (r * 2 - 1))) has_real_derivative
            (0 - (2 * (r2 * 2 - 1) + (r2 * 2 - 1) * 2)) * (inverse (sqrt (1 - (r2 * 2 - 1) * (r2 * 2 - 1))) / 2))
          (at r2)"
      using pos by (auto intro!: derivative_eq_intros)
    then show ?thesis unfolding e .
  qed
  show "((\<lambda>r. vec_x (spherePoint r r2)) has_real_derivative vec_x t1) (at r1)"
    unfolding spherePoint_def t1_def c_def
    by (auto intro!: derivative_eq_intros)
  show "((\<lambda>r. vec_y (spherePoint r r2)) has_real_derivative vec_y t1) (at r1)"
    unfolding spherePoint_def t1_def by simp
  show "((\<lambda>r. vec_z (spherePoint r r2)) has_real_derivative vec_z t1) (at r1)"
    unfolding spherePoint_def t1_def c_def
    by (auto intro!: derivative_eq_intros)
  show "((\<lambda>r. vec_x (spherePoint r1 r)) has_real_derivative vec_x t2) (at r2)"
    unfolding spherePoint_def t2_def Vector3.sel
    by (rule DERIV_cmult_right [OF dc])
  show "((\<lambda>r. vec_y (spherePoint r1 r)) has_real_derivative vec_y t2) (at r2)"
    unfolding spherePoint_def t2_def
    by (auto intro!: derivative_eq_intros)
  show "((\<lambda>r. vec_z (spherePoint r1 r)) has_real_derivative vec_z t2) (at r2)"
    unfolding spherePoint_def t2_def Vector3.sel
    by (rule DERIV_cmult_right [OF dc])
  have "crossVectors t1 t2 =
      multiplyScalar (Vector3 (c * cos (r1 * pi * 2)) u (c * sin (r1 * pi * 2))) (- (4 * pi))"
  proof -
    have "2 * pi * c * cos (r1 * pi * 2) * (- (2 * u / c) * cos (r1 * pi * 2))
          - (- (2 * pi) * c * sin (r1 * pi * 2)) * (- (2 * u / c) * sin (r1 * pi * 2))
        = - (4 * pi * u) * (cos (r1 * pi * 2) * cos (r1 * pi * 2) + sin (r1 * pi * 2) * sin (r1 * pi * 2))"
      using cpos by (simp add: field_simps del: sin_cos_squared_add3)
    also have "\<dots> = - (4 * pi * u)"
      by (simp only: sin_cos_squared_add3 mult_1_right)
    finally have "2 * pi * c * cos (r1 * pi * 2) * (- (2 * u / c) * cos (r1 * pi * 2))
          - (- (2 * pi) * c * sin (r1 * pi * 2)) * (- (2 * u / c) * sin (r1 * pi * 2))
        = - (4 * pi * u)" .
    then show ?thesis
      by (simp add: crossVectors_def t1_def t2_def multiplyScalar_def)
  qed
  moreover have "length_v (Vector3 (c * cos (r1 * pi * 2)) u (c * sin (r1 * pi * 2))) = 1"
    using sphere_point_unit [of r2 "r1 * pi * 2"] r2 by (simp add: c_def u_def)
  ultimately show "length_v (crossVectors t1 t2) = 4 * pi"
    by (simp add: length_v_multiplyScalar)
qed

lemma noise_vector_zero_iff:
  assumes "length_v d = 1"
  shows "multiplyScalar (multiplyScalar d m) NOISE_FACTOR = zero \<longleftrightarrow> m = 0"
proof -
  have "length_v (multiplyScalar (multiplyScalar d m) NOISE_FACTOR) = \<bar>m\<bar> / 2"
    by (simp add: length_v_multiplyScalar assms NOISE_FACTOR_def)
  then show ?thesis
    by (metis abs_eq_0 divide_eq_0_iff length_v_zero_iff zero_neq_numeral)
qed

lemma magnitude_interval:
  assumes "0 \<le> a" "a \<le> b" "b \<le> VELOCITY_LIM"
  shows "{r. 0 \<le> r \<and> r < 1 \<and> a \<le> r * VELOCITY_LIM \<and> r * VELOCITY_LIM < b}
           = {a / VELOCITY_LIM ..< b / VELOCITY_LIM}"
  using assms by (auto simp: VELOCITY_LIM_def field_simps)

text \<open>
  C5, as the code has it. When the insect has at least one neighbour within
  \<open>ALIGNMENT_RADIUS\<close> and the angle between its velocity and the neighbours' average
  velocity is strictly less than \<open>NOISE_ANGLE\<close>, the noise correction is \<open>NOISE_FACTOR\<close>
  times the zero vector, which is zero, and no random number is drawn. When it has no
  neighbour, or the angle is not below \<open>NOISE_ANGLE\<close>, three numbers are drawn and the
  correction is \<open>NOISE_FACTOR\<close> times the vector of direction \<open>spherePoint\<close> of the first
  two draws, a unit vector, and of magnitude the third draw times \<open>VELOCITY_LIM\<close>, which
  lies in \<open>[0, VELOCITY_LIM)\<close>; this correction is zero exactly when the third draw is
  \<open>0\<close>.

  The magnitude is uniform when the draw is: the draws that put it into \<open>[a, b)\<close> are
  those of the interval \<open>[a / VELOCITY_LIM, b / VELOCITY_LIM)\<close>, whose length is
  proportional to \<open>b - a\<close>. The direction is uniform on the unit sphere when the two draws
  are uniform on the unit square: \<open>spherePoint\<close> reaches every unit vector but the pole
  \<open>(0, 1, 0)\<close>, is one-to-one for second draws other than \<open>0\<close>, and stretches areas by the
  same factor everywhere, the cross product of its two tangent vectors having length
  \<open>4 * pi\<close>, the area of the unit sphere.
\<close>

theorem noise_correction_characterised:
  "(getInsectsWithinDistance insect insectList ALIGNMENT_RADIUS \<noteq> []
      \<and> calculateAverageVelocity (getInsectsWithinDistance insect insectList ALIGNMENT_RADIUS) vels
          = Inr averageVelocity
      \<and> vels (mesh_id insect) = Some insectVelocity
      \<and> angleTo insectVelocity averageVelocity < NOISE_ANGLE
    \<longrightarrow> getNoiseAlignmentCorrections insect insectList vels g
          = Inr (multiplyScalar zero NOISE_FACTOR, g)
        \<and> multiplyScalar zero NOISE_FACTOR = zero)
   \<and> ((getInsectsWithinDistance insect insectList ALIGNMENT_RADIUS = []
        \<or> (calculateAverageVelocity (getInsectsWithinDistance insect insectList ALIGNMENT_RADIUS) vels
              = Inr averageVelocity
            \<and> vels (mesh_id insect) = Some insectVelocity
            \<and> \<not> angleTo insectVelocity averageVelocity < NOISE_ANGLE))
       \<and> (\<forall>i<3. 0 \<le> g i \<and> g i < 1)
    \<longrightarrow> getNoiseAlignmentCorrections insect insectList vels g
          = Inr (multiplyScalar
                   (multiplyScalar (spherePoint (g 0) (g 1)) (g 2 * VELOCITY_LIM)) NOISE_FACTOR,
                 \<lambda>n. g (n + 3))
        \<and> length_v (spherePoint (g 0) (g 1)) = 1
        \<and> 0 \<le> g 2 * VELOCITY_LIM \<and> g 2 * VELOCITY_LIM < VELOCITY_LIM
        \<and> length_v (multiplyScalar (spherePoint (g 0) (g 1)) (g 2 * VELOCITY_LIM))
            = g 2 * VELOCITY_LIM
        \<and> ((\<exists>g'. getNoiseAlignmentCorrections insect insectList vels g = Inr (zero, g'))
             \<longleftrightarrow> g 2 = 0))
   \<and> fst (randomDirection g) = spherePoint (g 0) (g 1)
   \<and> (0 \<le> a \<and> a \<le> b \<and> b \<le> VELOCITY_LIM
        \<longrightarrow> {r. 0 \<le> r \<and> r < 1 \<and> a \<le> r * VELOCITY_LIM \<and> r * VELOCITY_LIM < b}
              = {a / VELOCITY_LIM ..< b / VELOCITY_LIM})
   \<and> (length_v d = 1 \<and> vec_y d < 1
        \<longrightarrow> (\<exists>r1 r2. 0 \<le> r1 \<and> r1 < 1 \<and> 0 \<le> r2 \<and> r2 < 1 \<and> spherePoint r1 r2 = d))
   \<and> (0 \<le> p1 \<and> p1 < 1 \<and> 0 \<le> q1 \<and> q1 < 1 \<and> 0 < p2 \<and> p2 < 1
        \<and> spherePoint p1 p2 = spherePoint q1 q2
        \<longrightarrow> p1 = q1 \<and> p2 = q2)
   \<and> (0 < p2 \<and> p2 < 1
        \<longrightarrow> (\<exists>t1 t2.
               ((\<lambda>r. vec_x (spherePoint r p2)) has_real_derivative vec_x t1) (at p1)
             \<and> ((\<lambda>r. vec_y (spherePoint r p2)) has_real_derivative vec_y t1) (at p1)
             \<and> ((\<lambda>r. vec_z (spherePoint r p2)) has_real_derivative vec_z t1) (at p1)
             \<and> ((\<lambda>r. vec_x (spherePoint p1 r)) has_real_derivative vec_x t2) (at p2)
             \<and> ((\<lambda>r. vec_y (spherePoint p1 r)) has_real_derivative vec_y t2) (at p2)
             \<and> ((\<lambda>r. vec_z (spherePoint p1 r)) has_real_derivative vec_z t2) (at p2)
             \<and> length_v (crossVectors t1 t2) = 4 * pi))"
proof -
  let ?N = "getInsectsWithinDistance insect insectList ALIGNMENT_RADIUS"
  let ?noise = "getNoiseAlignmentCorrections insect insectList vels g"
  have aligned: "?noise = Inr (multiplyScalar zero NOISE_FACTOR, g)
        \<and> multiplyScalar zero NOISE_FACTOR = zero"
    if "?N \<noteq> [] \<and> calculateAverageVelocity ?N vels = Inr averageVelocity
      \<and> vels (mesh_id insect) = Some insectVelocity
      \<and> angleTo insectVelocity averageVelocity < NOISE_ANGLE"
  proof -
    from that have "withinAlignmentLimit insect insectList vels = Inr True"
      using withinAlignmentLimit_neighbours [of insect insectList vels averageVelocity insectVelocity]
      by simp
    then show ?thesis
      by (simp add: noise_aligned multiplyScalar_zero_vec)
  qed
  have noisy: "?noise = Inr (multiplyScalar
                   (multiplyScalar (spherePoint (g 0) (g 1)) (g 2 * VELOCITY_LIM)) NOISE_FACTOR,
                 \<lambda>n. g (n + 3))
        \<and> length_v (spherePoint (g 0) (g 1)) = 1
        \<and> 0 \<le> g 2 * VELOCITY_LIM \<and> g 2 * VELOCITY_LIM < VELOCITY_LIM
        \<and> length_v (multiplyScalar (spherePoint (g 0) (g 1)) (g 2 * VELOCITY_LIM))
            = g 2 * VELOCITY_LIM
        \<and> ((\<exists>g'. ?noise = Inr (zero, g')) \<longleftrightarrow> g 2 = 0)"
    if b: "(?N = []
        \<or> (calculateAverageVelocity ?N vels = Inr averageVelocity
            \<and> vels (mesh_id insect) = Some insectVelocity
            \<and> \<not> angleTo insectVelocity averageVelocity < NOISE_ANGLE))
       \<and> (\<forall>i<3. 0 \<le> g i \<and> g i < 1)"
  proof -
    have w: "withinAlignmentLimit insect insectList vels = Inr False"
    proof (cases "?N = []")
      case True
      then show ?thesis by (rule withinAlignmentLimit_no_neighbours)
    next
      case False
      with b show ?thesis
        using withinAlignmentLimit_neighbours [of insect insectList vels averageVelocity insectVelocity]
        by simp
    qed
    from b have draws: "\<forall>i<3. 0 \<le> g i \<and> g i < 1" by blast
    note n = noise_not_aligned [OF w draws, unfolded randomDirection_spherePoint]
    from n have run: "?noise = Inr (multiplyScalar
                   (multiplyScalar (spherePoint (g 0) (g 1)) (g 2 * VELOCITY_LIM)) NOISE_FACTOR,
                 \<lambda>n. g (n + 3))"
      and unit: "length_v (spherePoint (g 0) (g 1)) = 1"
      by blast+
    have "(\<exists>g'. ?noise = Inr (zero, g')) \<longleftrightarrow> g 2 * VELOCITY_LIM = 0"
      unfolding run using noise_vector_zero_iff [OF unit, of "g 2 * VELOCITY_LIM"] by auto
    then have "(\<exists>g'. ?noise = Inr (zero, g')) \<longleftrightarrow> g 2 = 0"
      by (simp add: VELOCITY_LIM_def)
    with n show ?thesis by blast
  qed
  have tangents: "\<exists>t1 t2.
               ((\<lambda>r. vec_x (spherePoint r p2)) has_real_derivative vec_x t1) (at p1)
             \<and> ((\<lambda>r. vec_y (spherePoint r p2)) has_real_derivative vec_y t1) (at p1)
             \<and> ((\<lambda>r. vec_z (spherePoint r p2)) has_real_derivative vec_z t1) (at p1)
             \<and> ((\<lambda>r. vec_x (spherePoint p1 r)) has_real_derivative vec_x t2) (at p2)
             \<and> ((\<lambda>r. vec_y (spherePoint p1 r)) has_real_derivative vec_y t2) (at p2)
             \<and> ((\<lambda>r. vec_z (spherePoint p1 r)) has_real_derivative vec_z t2) (at p2)
             \<and> length_v (crossVectors t1 t2) = 4 * pi"
    if "0 < p2 \<and> p2 < 1"
  proof -
    from that have p2: "0 < p2" "p2 < 1" by simp_all
    from spherePoint_tangents [OF p2, of p1] show ?thesis
      by (intro exI conjI)
  qed
  have c1: "?N \<noteq> [] \<and> calculateAverageVelocity ?N vels = Inr averageVelocity
      \<and> vels (mesh_id insect) = Some insectVelocity
      \<and> angleTo insectVelocity averageVelocity < NOISE_ANGLE
    \<longrightarrow> ?noise = Inr (multiplyScalar zero NOISE_FACTOR, g)
        \<and> multiplyScalar zero NOISE_FACTOR = zero"
    using aligned by (rule impI)
  have c2: "(?N = []
        \<or> (calculateAverageVelocity ?N vels = Inr averageVelocity
            \<and> vels (mesh_id insect) = Some insectVelocity
            \<and> \<not> angleTo insectVelocity averageVelocity < NOISE_ANGLE))
       \<and> (\<forall>i<3. 0 \<le> g i \<and> g i < 1)
    \<longrightarrow> ?noise = Inr (multiplyScalar
                   (multiplyScalar (spherePoint (g 0) (g 1)) (g 2 * VELOCITY_LIM)) NOISE_FACTOR,
                 \<lambda>n. g (n + 3))
        \<and> length_v (spherePoint (g 0) (g 1)) = 1
        \<and> 0 \<le> g 2 * VELOCITY_LIM \<and> g 2 * VELOCITY_LIM < VELOCITY_LIM
        \<and> length_v (multiplyScalar (spherePoint (g 0) (g 1)) (g 2 * VELOCITY_LIM))
            = g 2 * VELOCITY_LIM
        \<and> ((\<exists>g'. ?noise = Inr (zero, g')) \<longleftrightarrow> g 2 = 0)"
    using noisy by (rule impI)
  have c3: "fst (randomDirection g) = spherePoint (g 0) (g 1)"
    by (rule randomDirection_spherePoint)
  have c4: "0 \<le> a \<and> a \<le> b \<and> b \<le> VELOCITY_LIM
        \<longrightarrow> {r. 0 \<le> r \<and> r < 1 \<and> a \<le> r * VELOCITY_LIM \<and> r * VELOCITY_LIM < b}
              = {a / VELOCITY_LIM ..< b / VELOCITY_LIM}"
    using magnitude_interval [of a b] by blast
  have c5: "length_v d = 1 \<and> vec_y d < 1
        \<longrightarrow> (\<exists>r1 r2. 0 \<le> r1 \<and> r1 < 1 \<and> 0 \<le> r2 \<and> r2 < 1 \<and> spherePoint r1 r2 = d)"
    using spherePoint_onto [of d] by blast
  have c6: "0 \<le> p1 \<and> p1 < 1 \<and> 0 \<le> q1 \<and> q1 < 1 \<and> 0 < p2 \<and> p2 < 1
        \<and> spherePoint p1 p2 = spherePoint q1 q2
        \<longrightarrow> p1 = q1 \<and> p2 = q2"
    using spherePoint_inj [of p1 q1 p2 q2] by blast
  have c7: "0 < p2 \<and> p2 < 1
        \<longrightarrow> (\<exists>t1 t2.
               ((\<lambda>r. vec_x (spherePoint r p2)) has_real_derivative vec_x t1) (at p1)
             \<and> ((\<lambda>r. vec_y (spherePoint r p2)) has_real_derivative vec_y t1) (at p1)
             \<and> ((\<lambda>r. vec_z (spherePoint r p2)) has_real_derivative vec_z t1) (at p1)
             \<and> ((\<lambda>r. vec_x (spherePoint p1 r)) has_real_derivative vec_x t2) (at p2)
             \<and> ((\<lambda>r. vec_y (spherePoint p1 r)) has_real_derivative vec_y t2) (at p2)
             \<and> ((\<lambda>r. vec_z (spherePoint p1 r)) has_real_derivative vec_z t2) (at p2)
             \<and> length_v (crossVectors t1 t2) = 4 * pi)"
    using tangents by (rule impI)
  from c1 c2 c3 c4 c5 c6 c7 show ?thesis
    by (intro conjI)
qed

text \<open>
  C5 as stated fails in one direction: the correction can be zero without the insect
  being aligned. With no neighbour at all and draws that are all \<open>0\<close>, the random vector
  has magnitude \<open>0 * VELOCITY_LIM\<close> and the correction is the zero vector.
\<close>

theorem noise_zero_without_alignment:
  "getInsectsWithinDistance (heap pairState 0) [] ALIGNMENT_RADIUS = []
   \<and> getNoiseAlignmentCorrections (heap pairState 0) [] (velocities pairState) (\<lambda>n. 0)
       = Inr (zero, \<lambda>n. 0)"
proof -
  have n: "getInsectsWithinDistance (heap pairState 0) [] ALIGNMENT_RADIUS = []"
    by (simp add: getInsectsWithinDistance_def)
  have d: "fst (randomDirection (\<lambda>n. 0)) = Vector3 0 (- 1) 0"
    by (simp add: randomDirection_eq)
  have "length_v (Vector3 0 (- 1) 0) = 1"
    by (simp add: length_v_def)
  then have "getNoiseAlignmentCorrections (heap pairState 0) [] (velocities pairState) (\<lambda>n. 0)
       = Inr (zero, \<lambda>n. 0)"
    unfolding noise_draws withinAlignmentLimit_no_neighbours [OF n] d
    by (simp add: setLength_Inr or_one_def multiplyScalar_def zero_def)
  with n show ?thesis by simp
qed

lemma opposed_average_velocity:
  "calculateAverageVelocity [heap pairState 1] opposedVelocities = Inr (Vector3 (- 1) 0 0)"
  by (simp add: pairState_def opposedVelocities_def eval_defs)

lemma angle_opposite_direction: "\<not> angleTo (Vector3 1 0 0) (Vector3 (- 1) 0 0) < NOISE_ANGLE"
  by (simp add: eval_defs)

theorem noise_correction_characterised_witness:
  "getNoiseAlignmentCorrections (heap pairState 0) (insectsMinusOne pairState [0, 1] 0)
      (velocities pairState) (\<lambda>n. 1 / 2) = Inr (zero, \<lambda>n. 1 / 2)
   \<and> getNoiseAlignmentCorrections (heap pairState 0) (insectsMinusOne pairState [0, 1] 0)
       opposedVelocities (\<lambda>n. 1 / 2) = Inr (Vector3 (- (3 / 8)) 0 0, \<lambda>n. 1 / 2)
   \<and> {r. 0 \<le> r \<and> r < 1 \<and> 0 \<le> r * VELOCITY_LIM \<and> r * VELOCITY_LIM < 1}
       = {0 / VELOCITY_LIM ..< 1 / VELOCITY_LIM}
   \<and> (\<exists>r1 r2. 0 \<le> r1 \<and> r1 < 1 \<and> 0 \<le> r2 \<and> r2 < 1 \<and> spherePoint r1 r2 = Vector3 1 0 0)
   \<and> (\<exists>t1 t2.
         ((\<lambda>r. vec_x (spherePoint r (1 / 2))) has_real_derivative vec_x t1) (at 0)
       \<and> ((\<lambda>r. vec_y (spherePoint r (1 / 2))) has_real_derivative vec_y t1) (at 0)
       \<and> ((\<lambda>r. vec_z (spherePoint r (1 / 2))) has_real_derivative vec_z t1) (at 0)
       \<and> ((\<lambda>r. vec_x (spherePoint 0 r)) has_real_derivative vec_x t2) (at (1 / 2))
       \<and> ((\<lambda>r. vec_y (spherePoint 0 r)) has_real_derivative vec_y t2) (at (1 / 2))
       \<and> ((\<lambda>r. vec_z (spherePoint 0 r)) has_real_derivative vec_z t2) (at (1 / 2))
       \<and> length_v (crossVectors t1 t2) = 4 * pi)"
proof -
  let ?others = "insectsMinusOne pairState [0, 1] 0"
  let ?N = "getInsectsWithinDistance (heap pairState 0) ?others ALIGNMENT_RADIUS"
  have nonempty: "?N \<noteq> []"
    unfolding pair_neighbours by simp
  have a: "?N \<noteq> []
      \<and> calculateAverageVelocity ?N (velocities pairState) = Inr (Vector3 1 0 0)
      \<and> velocities pairState (mesh_id (heap pairState 0)) = Some (Vector3 1 0 0)
      \<and> angleTo (Vector3 1 0 0) (Vector3 1 0 0) < NOISE_ANGLE"
  proof (intro conjI)
    show "?N \<noteq> []" by (rule nonempty)
    show "calculateAverageVelocity ?N (velocities pairState) = Inr (Vector3 1 0 0)"
      unfolding pair_neighbours by (rule pair_average_velocity)
    show "velocities pairState (mesh_id (heap pairState 0)) = Some (Vector3 1 0 0)"
      by (simp add: pairState_def)
    show "angleTo (Vector3 1 0 0) (Vector3 1 0 0) < NOISE_ANGLE"
      by (rule angle_same_direction)
  qed
  have draws: "\<forall>i<3. 0 \<le> (\<lambda>n::nat. 1 / 2 :: real) i \<and> (\<lambda>n::nat. 1 / 2 :: real) i < 1"
    by simp
  have b: "(?N = []
        \<or> (calculateAverageVelocity ?N opposedVelocities = Inr (Vector3 (- 1) 0 0)
            \<and> opposedVelocities (mesh_id (heap pairState 0)) = Some (Vector3 1 0 0)
            \<and> \<not> angleTo (Vector3 1 0 0) (Vector3 (- 1) 0 0) < NOISE_ANGLE))
       \<and> (\<forall>i<3. 0 \<le> (\<lambda>n::nat. 1 / 2 :: real) i \<and> (\<lambda>n::nat. 1 / 2 :: real) i < 1)"
  proof (intro conjI disjI2)
    show "calculateAverageVelocity ?N opposedVelocities = Inr (Vector3 (- 1) 0 0)"
      unfolding pair_neighbours by (rule opposed_average_velocity)
    show "opposedVelocities (mesh_id (heap pairState 0)) = Some (Vector3 1 0 0)"
      by (simp add: pairState_def opposedVelocities_def)
    show "\<not> angleTo (Vector3 1 0 0) (Vector3 (- 1) 0 0) < NOISE_ANGLE"
      by (rule angle_opposite_direction)
    show "\<forall>i<3. 0 \<le> (\<lambda>n::nat. 1 / 2 :: real) i \<and> (\<lambda>n::nat. 1 / 2 :: real) i < 1"
      by (rule draws)
  qed
  have range: "(0::real) \<le> 0 \<and> (0::real) \<le> 1 \<and> 1 \<le> VELOCITY_LIM"
    by (simp add: VELOCITY_LIM_def)
  have unit: "length_v (Vector3 1 0 0) = 1 \<and> vec_y (Vector3 1 0 0) < 1"
    by (simp add: length_v_def)
  have inner: "(0::real) < 1 / 2 \<and> (1 / 2 :: real) < 1"
    by simp
  note first = noise_correction_characterised
    [of "heap pairState 0" ?others "velocities pairState" "Vector3 1 0 0" "Vector3 1 0 0"
        "\<lambda>n. 1 / 2" 0 1 "Vector3 1 0 0" 0 0 "1 / 2" "1 / 2"]
  note second = noise_correction_characterised
    [of "heap pairState 0" ?others opposedVelocities "Vector3 (- 1) 0 0" "Vector3 1 0 0"
        "\<lambda>n. 1 / 2" 0 1 "Vector3 1 0 0" 0 0 "1 / 2" "1 / 2"]
  from first a have w1: "getNoiseAlignmentCorrections (heap pairState 0) ?others
      (velocities pairState) (\<lambda>n. 1 / 2) = Inr (zero, \<lambda>n. 1 / 2)"
    by (simp add: multiplyScalar_zero_vec)
  from second b have "getNoiseAlignmentCorrections (heap pairState 0) ?others
       opposedVelocities (\<lambda>n. 1 / 2)
     = Inr (multiplyScalar (multiplyScalar (spherePoint (1 / 2) (1 / 2)) (1 / 2 * VELOCITY_LIM))
              NOISE_FACTOR, \<lambda>n. 1 / 2)"
    by blast
  moreover have "spherePoint (1 / 2) (1 / 2) = Vector3 (- 1) 0 0"
    by (simp add: spherePoint_def)
  ultimately have w2: "getNoiseAlignmentCorrections (heap pairState 0) ?others
       opposedVelocities (\<lambda>n. 1 / 2) = Inr (Vector3 (- (3 / 8)) 0 0, \<lambda>n. 1 / 2)"
    by (simp add: multiplyScalar_def VELOCITY_LIM_def NOISE_FACTOR_def)
  from first range have w3: "{r. 0 \<le> r \<and> r < 1 \<and> 0 \<le> r * VELOCITY_LIM \<and> r * VELOCITY_LIM < 1}
       = {0 / VELOCITY_LIM ..< 1 / VELOCITY_LIM}"
    by blast
  from first unit have w4: "\<exists>r1 r2. 0 \<le> r1 \<and> r1 < 1 \<and> 0 \<le> r2 \<and> r2 < 1
      \<and> spherePoint r1 r2 = Vector3 1 0 0"
    by blast
  from first inner have w5: "\<exists>t1 t2.
         ((\<lambda>r. vec_x (spherePoint r (1 / 2))) has_real_derivative vec_x t1) (at 0)
       \<and> ((\<lambda>r. vec_y (spherePoint r (1 / 2))) has_real_derivative vec_y t1) (at 0)
       \<and> ((\<lambda>r. vec_z (spherePoint r (1 / 2))) has_real_derivative vec_z t1) (at 0)
       \<and> ((\<lambda>r. vec_x (spherePoint 0 r)) has_real_derivative vec_x t2) (at (1 / 2))
       \<and> ((\<lambda>r. vec_y (spherePoint 0 r)) has_real_derivative vec_y t2) (at (1 / 2))
       \<and> ((\<lambda>r. vec_z (spherePoint 0 r)) has_real_derivative vec_z t2) (at (1 / 2))
       \<and> length_v (crossVectors t1 t2) = 4 * pi"
    by blast
  from w1 w2 w3 w4 w5 show ?thesis
    by (intro conjI)
qed

subsection \<open>Randomness and repeatable runs\<close>

lemma agree_mono: "agree k g1 g2 \<Longrightarrow> j \<le> k \<Longrightarrow> agree j g1 g2"
  by (simp add: agree_def)

lemma agree_shift: "agree k g1 g2 \<Longrightarrow> agree (k - d) (\<lambda>n. g1 (n + d)) (\<lambda>n. g2 (n + d))"
  by (simp add: agree_def)

lemma related_mono: "related k s t \<Longrightarrow> j \<le> k \<Longrightarrow> related j s t"
  by (auto simp: related_def intro: agree_mono)

lemma relatedResults_mono: "relatedResults k r1 r2 \<Longrightarrow> j \<le> k \<Longrightarrow> relatedResults j r1 r2"
  by (auto simp: relatedResults_def split: sum.splits intro: related_mono)

lemma relatedResults_bind:
  assumes "relatedResults k r1 r2"
    and "\<And>s t. related k s t \<Longrightarrow> relatedResults j (f s) (f' t)"
  shows "relatedResults j (bind_err r1 f) (bind_err r2 f')"
  using assms by (cases r1; cases r2) (auto simp: relatedResults_def)

lemma randomDirection_agree:
  "agree k g1 g2 \<Longrightarrow> 2 \<le> k \<Longrightarrow> fst (randomDirection g1) = fst (randomDirection g2)"
  by (simp add: randomDirection_eq agree_def)

lemma getNoiseAlignmentCorrections_agree:
  assumes "agree k g1 g2" "3 \<le> k"
  shows "relatedDraws (k - 3) (getNoiseAlignmentCorrections insect insectList vels g1)
           (getNoiseAlignmentCorrections insect insectList vels g2)"
proof -
  from assms have d: "fst (randomDirection g1) = fst (randomDirection g2)"
    by (simp add: randomDirection_agree)
  from assms have m: "g1 2 = g2 2" by (simp add: agree_def)
  from assms have sh: "agree (k - 3) (\<lambda>n. g1 (n + 3)) (\<lambda>n. g2 (n + 3))"
    by (simp add: agree_shift)
  from assms have keep: "agree (k - 3) g1 g2" by (simp add: agree_mono)
  show ?thesis
    unfolding noise_draws d m
    by (cases "withinAlignmentLimit insect insectList vels")
       (simp_all add: relatedDraws_def setLength_Inr sh keep)
qed

lemma getNewVelocity_agree:
  assumes "agree k g1 g2" "3 \<le> k"
  shows "relatedDraws (k - 3) (getNewVelocity insect insectList vels g1)
           (getNewVelocity insect insectList vels g2)"
proof -
  from getNoiseAlignmentCorrections_agree [OF assms, of insect insectList vels]
  show ?thesis
    unfolding getNewVelocity_def
    by (cases "vels (mesh_id insect)"; cases "getSeparationCorrection insect insectList";
        cases "getAlignmentCorrection insect insectList vels";
        cases "getCoherenceCorrection insect insectList";
        cases "getNoiseAlignmentCorrections insect insectList vels g1";
        cases "getNoiseAlignmentCorrections insect insectList vels g2")
       (auto simp: relatedDraws_def clampLength_Inr)
qed

lemma updateInsect_related:
  assumes "related k s t" "3 \<le> k"
  shows "relatedResults (k - 3) (updateInsect insectList ref s) (updateInsect insectList ref t)"
proof -
  from assms(1) have eq: "heap t = heap s" "velocities t = velocities s" "insects t = insects s"
    "stepCounter t = stepCounter s" "object3DId t = object3DId s"
    and ag: "agree k (generator s) (generator t)"
    by (simp_all add: related_def)
  have im: "insectsMinusOne t insectList ref = insectsMinusOne s insectList ref"
    by (simp add: insectsMinusOne_def eq)
  from getNewVelocity_agree [OF ag assms(2), of "heap s ref" "insectsMinusOne s insectList ref"
      "velocities s"]
  show ?thesis
    unfolding updateInsect_def Let_def im eq
    by (cases "getNewVelocity (heap s ref) (insectsMinusOne s insectList ref) (velocities s)
                 (generator s)";
        cases "getNewVelocity (heap s ref) (insectsMinusOne s insectList ref) (velocities s)
                 (generator t)")
       (auto simp: relatedDraws_def relatedResults_def related_def eq)
qed

lemma forEachInsect_related:
  assumes "related k s t" "3 * length todo \<le> k"
  shows "relatedResults (k - 3 * length todo) (forEachInsect insectList todo s)
           (forEachInsect insectList todo t)"
  using assms
proof (induction todo arbitrary: k s t)
  case Nil
  then show ?case by (simp add: relatedResults_def)
next
  case (Cons ref rest)
  from Cons.prems have k3: "3 \<le> k" and rest: "3 * length rest \<le> k - 3"
    by simp_all
  have step: "relatedResults (k - 3) (updateInsect insectList ref s) (updateInsect insectList ref t)"
    by (rule updateInsect_related [OF Cons.prems(1) k3])
  have "relatedResults (k - 3 - 3 * length rest)
          (bind_err (updateInsect insectList ref s) (forEachInsect insectList rest))
          (bind_err (updateInsect insectList ref t) (forEachInsect insectList rest))"
    by (rule relatedResults_bind [OF step]) (rule Cons.IH [OF _ rest])
  moreover have "k - 3 - 3 * length rest = k - 3 * length (ref # rest)"
    by simp
  ultimately show ?case by simp
qed

lemma relatedResults_bind_results:
  assumes "relatedResults k r1 r2"
    and "\<And>s t. r1 = Inr s \<Longrightarrow> r2 = Inr t \<Longrightarrow> related k s t \<Longrightarrow> relatedResults j (f s) (f' t)"
  shows "relatedResults j (bind_err r1 f) (bind_err r2 f')"
  using assms by (cases r1; cases r2) (auto simp: relatedResults_def)

lemma forEachInsect_insects:
  "forEachInsect insectList todo s = Inr s' \<Longrightarrow> insects s' = insects s"
proof (induction todo arbitrary: s)
  case Nil
  then show ?case by simp
next
  case (Cons x xs)
  from Cons.prems obtain s1 where s1: "updateInsect insectList x s = Inr s1"
    and rest: "forEachInsect insectList xs s1 = Inr s'"
    by (auto simp: bind_err_eq_Inr)
  from Cons.IH [OF rest] updateInsect_misc [OF s1] show ?case by simp
qed

lemma animate_insects: "animate s = Inr s' \<Longrightarrow> insects s' = insects s"
  by (auto simp: animate_def updatePositions_def bind_err_eq_Inr split: if_splits
      dest: forEachInsect_insects)

lemma animate_related:
  assumes "related k s t" "3 * length (insects s) \<le> k"
  shows "relatedResults (k - 3 * length (insects s)) (animate s) (animate t)"
proof -
  from assms(1) have eq: "insects t = insects s" "stepCounter t = stepCounter s"
    by (simp_all add: related_def)
  show ?thesis
  proof (cases "stepCounter s < STEPS")
    case True
    have "relatedResults (k - 3 * length (insects s))
            (bind_err (forEachInsect (insects s) (insects s) s)
               (\<lambda>s'. Inr (s'\<lparr>stepCounter := stepCounter s' + 1\<rparr>)))
            (bind_err (forEachInsect (insects s) (insects s) t)
               (\<lambda>s'. Inr (s'\<lparr>stepCounter := stepCounter s' + 1\<rparr>)))"
      by (rule relatedResults_bind [OF forEachInsect_related [OF assms]])
         (simp add: relatedResults_def related_def)
    with True show ?thesis
      by (simp add: animate_def updatePositions_def eq)
  next
    case False
    with related_mono [OF assms(1), of "k - 3 * length (insects s)"] show ?thesis
      by (simp add: animate_def eq relatedResults_def)
  qed
qed

lemma frames_related:
  assumes "related k s t" "3 * length (insects s) * n \<le> k"
  shows "relatedResults (k - 3 * length (insects s) * n) (frames n s) (frames n t)"
  using assms
proof (induction n arbitrary: k s t)
  case 0
  then show ?case by (simp add: relatedResults_def)
next
  case (Suc n)
  let ?m = "3 * length (insects s)"
  from Suc.prems(2) have k1: "?m \<le> k" and k2: "?m * n \<le> k - ?m"
    by (simp_all add: algebra_simps)
  have step: "relatedResults (k - ?m) (animate s) (animate t)"
    by (rule animate_related [OF Suc.prems(1) k1])
  have "relatedResults (k - ?m - ?m * n) (bind_err (animate s) (frames n))
          (bind_err (animate t) (frames n))"
  proof (rule relatedResults_bind_results [OF step])
    fix s' t'
    assume "animate s = Inr s'" and r: "related (k - ?m) s' t'"
    then have ins: "insects s' = insects s" by (simp add: animate_insects)
    from Suc.IH [of "k - ?m" s' t'] r k2
    show "relatedResults (k - ?m - ?m * n) (frames n s') (frames n t')"
      by (simp add: ins)
  qed
  moreover have "k - ?m - ?m * n = k - ?m * Suc n"
    by (simp add: algebra_simps)
  ultimately show ?case by simp
qed

lemma createInsect_related:
  assumes "related k s t" "10 \<le> k"
  shows "related (k - 10) (createInsect s) (createInsect t)"
proof -
  from assms have "\<forall>i<10. generator s i = generator t i"
    and "agree (k - 10) (\<lambda>n. generator s (n + 10)) (\<lambda>n. generator t (n + 10))"
    by (simp_all add: related_def agree_def)
  then have "generator s 4 = generator t 4" "generator s 5 = generator t 5"
    "generator s 6 = generator t 6" "generator s 7 = generator t 7"
    "generator s 8 = generator t 8" "generator s 9 = generator t 9"
    "agree (k - 10)
       (\<lambda>n. generator s (Suc (Suc (Suc (Suc (Suc (Suc (Suc (Suc (Suc (Suc n)))))))))))
       (\<lambda>n. generator t (Suc (Suc (Suc (Suc (Suc (Suc (Suc (Suc (Suc (Suc n)))))))))))"
    by (simp_all add: eval_nat_numeral)
  with assms(1) show ?thesis
    by (simp add: related_def createInsect_def newMesh_def generateUUID_def Math_random_def
        Let_def eval_nat_numeral)
qed

lemma createInsects_related:
  assumes "related k s t" "10 * n \<le> k"
  shows "related (k - 10 * n) (createInsects n s) (createInsects n t)"
  using assms
proof (induction n arbitrary: k s t)
  case 0
  then show ?case by simp
next
  case (Suc n)
  from Suc.prems(2) have k1: "10 \<le> k" and k2: "10 * n \<le> k - 10" by simp_all
  from Suc.IH [OF createInsect_related [OF Suc.prems(1) k1] k2]
  show ?case by (simp add: algebra_simps)
qed

lemma createInsect_length: "length (insects (createInsect s)) = Suc (length (insects s))"
  by (simp add: createInsect_def newMesh_def generateUUID_def Math_random_def Let_def)

lemma createInsects_length: "length (insects (createInsects n s)) = length (insects s) + n"
  by (induction n arbitrary: s) (simp_all add: createInsect_length)

lemma initialState_length: "length (insects (initialState firstId g)) = INSECT_COUNT"
  by (simp add: initialState_def createInsects_length emptyState_def)

lemma initialState_related:
  assumes "agree k g1 g2" "10 * INSECT_COUNT \<le> k"
  shows "related (k - 10 * INSECT_COUNT) (initialState firstId g1) (initialState firstId g2)"
  unfolding initialState_def
  by (rule createInsects_related [OF _ assms(2)]) (simp add: related_def emptyState_def assms(1))

lemma runs_related:
  assumes "agree (10 * INSECT_COUNT + 3 * INSECT_COUNT * n) g1 g2"
  shows "relatedResults 0 (frames n (initialState firstId g1)) (frames n (initialState firstId g2))"
proof -
  have "related (10 * INSECT_COUNT + 3 * INSECT_COUNT * n - 10 * INSECT_COUNT)
          (initialState firstId g1) (initialState firstId g2)"
    by (rule initialState_related [OF assms]) simp
  then have r: "related (3 * INSECT_COUNT * n) (initialState firstId g1) (initialState firstId g2)"
    by simp
  from frames_related [OF r, of n] show ?thesis
    by (simp add: initialState_length)
qed

text \<open>
  C9, as the code has it. The program has no seed: \<open>new Mesh\<close>, the initial placement and
  the noise read \<open>Math.random\<close>. From the start of the initialisation loop on, a run is a
  function of the numbers the generator returns, and of nothing else: two runs in which
  the first \<open>10 * INSECT_COUNT + 3 * INSECT_COUNT * n\<close> draws are the same (at
  initialisation ten per insect, four for the uuid of the new object and six for its
  position and velocity; then at most three per insect and step) both complete \<open>n\<close>
  frames and end with the same insects, positions, orientations, velocities and step
  counter.
\<close>

theorem same_draws_same_run:
  assumes "\<forall>i < 10 * INSECT_COUNT + 3 * INSECT_COUNT * n. g1 i = g2 i"
  shows "\<exists>s1 s2. frames n (initialState firstId g1) = Inr s1
           \<and> frames n (initialState firstId g2) = Inr s2
           \<and> heap s1 = heap s2 \<and> velocities s1 = velocities s2
           \<and> insects s1 = insects s2 \<and> stepCounter s1 = stepCounter s2"
proof -
  from assms have "agree (10 * INSECT_COUNT + 3 * INSECT_COUNT * n) g1 g2"
    by (simp add: agree_def)
  then have rel: "relatedResults 0 (frames n (initialState firstId g1))
      (frames n (initialState firstId g2))"
    by (rule runs_related)
  from frames_total [OF initialState_wellFormed, of n firstId g1]
  obtain s1 where s1: "frames n (initialState firstId g1) = Inr s1" by blast
  from frames_total [OF initialState_wellFormed, of n firstId g2]
  obtain s2 where s2: "frames n (initialState firstId g2) = Inr s2" by blast
  from rel have "related 0 s1 s2"
    by (simp add: s1 s2 relatedResults_def)
  with s1 s2 show ?thesis
    by (simp add: related_def)
qed

theorem same_draws_same_run_witness:
  "\<exists>s1 s2. frames 1 (initialState 0 (\<lambda>i. 0)) = Inr s1
     \<and> frames 1 (initialState 0 (\<lambda>i. if i < 1300 then 0 else 1 / 2)) = Inr s2
     \<and> heap s1 = heap s2 \<and> velocities s1 = velocities s2
     \<and> insects s1 = insects s2 \<and> stepCounter s1 = stepCounter s2"
proof -
  have h: "\<forall>i < 10 * INSECT_COUNT + 3 * INSECT_COUNT * 1.
      (\<lambda>i. 0 :: real) i = (\<lambda>i. if i < 1300 then 0 else 1 / 2) i"
    by (simp add: INSECT_COUNT_def)
  from same_draws_same_run [OF h, of 0] show ?thesis .
qed

lemma createInsect_heap_below:
  "r < object3DId s \<Longrightarrow> heap (createInsect s) r = heap s r \<and> r < object3DId (createInsect s)"
  by (simp add: createInsect_def newMesh_def generateUUID_def Math_random_def Let_def)

lemma createInsects_heap_below:
  "r < object3DId s \<Longrightarrow> heap (createInsects n s) r = heap s r"
proof (induction n arbitrary: s)
  case 0
  then show ?case by simp
next
  case (Suc n)
  from createInsect_heap_below [OF Suc.prems] Suc.IH [of "createInsect s"]
  show ?case by simp
qed

lemma first_insect_position:
  "position (heap (initialState 0 g) 0) =
     Vector3 (g 4 * X_LIM * 2 - X_LIM) (g 5 * Y_LIM * 2 - Y_LIM) (g 6 * Z_LIM * 2 - Z_LIM)"
proof -
  have "INSECT_COUNT = Suc 99" by (simp add: INSECT_COUNT_def)
  then have "initialState 0 g = createInsects (Suc 99) (emptyState 0 g)"
    by (simp only: initialState_def)
  then have "heap (initialState 0 g) 0 = heap (createInsects 99 (createInsect (emptyState 0 g))) 0"
    by (simp only: createInsects.simps)
  also have "\<dots> = heap (createInsect (emptyState 0 g)) 0"
    by (rule createInsects_heap_below) (simp add: createInsect_def newMesh_def generateUUID_def Math_random_def Let_def emptyState_def)
  finally show ?thesis
    by (simp add: createInsect_def newMesh_def generateUUID_def Math_random_def Let_def emptyState_def
        eval_nat_numeral)
qed

text \<open>
  C9 as stated fails: there is no seed to hold fixed. Two runs of the same program, with
  the same constants, place the first insect at \<open>(-135, -73, -75)\<close> when the generator
  returns zeros and at the origin when it returns halves.
\<close>

theorem unseeded_runs_differ:
  "position (heap (initialState 0 (\<lambda>i. 0)) 0) = Vector3 (- 135) (- 73) (- 75)
   \<and> position (heap (initialState 0 (\<lambda>i. 1 / 2)) 0) = Vector3 0 0 0"
  by (simp add: first_insect_position X_LIM_def Y_LIM_def Z_LIM_def)

end
